theory Spec2Isabelle
  imports Complex_Main "HOL-Library.Log_Nat" "HOL-Library.Code_Target_Nat"
begin

section \<open>Conventions of the embedding\<close>

text \<open>
  The program is TypeScript. Its strings are sequences of UTF-16 code units, and none of its
  regular expressions carries the \<open>u\<close> flag, so every character class, \<open>length\<close>,
  \<open>indexOf\<close> and \<open>slice\<close> works on code units: a string that the program searches or
  measures is a list of code units (\<open>jsstring\<close>). Names that the program only copies
  (hashes, titles, paths, error messages) are plain \<open>string\<close>s.

  A \<open>number\<close> is an IEEE 754 double. In the score conversions of the two searchers a
  finite double is the real it denotes and every arithmetic operation is the exact
  operation followed by the rounding \<open>fl\<close> to the nearest double (next subsection);
  \<open>Infinity\<close> (\<open>jsnum\<close>) arises where the program returns it or a quotient overflows.
  NaN and the sign of zero are not modelled; no conversion produces NaN from numbers. In
  the token estimate and in rank fusion numbers are exact reals (the notes at
  \<open>estimateTokenCount\<close> and \<open>rrfFusion\<close> say what that leaves out).

  An exception is a value of \<open>js_error\<close>, and a function that can throw returns
  \<open>js_error + 'a\<close> with \<open>Inl\<close> for the throw. The database and the embedding service are
  collaborators: each is a parameter giving the outcome of the call.
\<close>

type_synonym jsstring = "nat list"

definition ascii :: "string \<Rightarrow> jsstring" where
  "ascii s = map of_char s"

datatype jsnum = Finite real | Infinity

subsection \<open>Rounding to a double\<close>

text \<open>
  \<open>round_half_even\<close> rounds a real to the nearest integer, a tie to the even one.
\<close>

definition round_half_even :: "real \<Rightarrow> int" where
  "round_half_even x =
     (let f = \<lfloor>x\<rfloor>; r = x - of_int f
      in if r < 1 / 2 then f else if r > 1 / 2 then f + 1 else if even f then f else f + 1)"

text \<open>
  \<open>binary_exponent x\<close> is the integer \<open>e\<close> with \<open>2^e \<le> |x| < 2^(e+1)\<close>, for \<open>x \<noteq> 0\<close>,
  computed from the number of binary digits of an integer (\<open>bitlen\<close>).
\<close>

definition binary_exponent :: "real \<Rightarrow> int" where
  "binary_exponent x =
     (if 1 \<le> \<bar>x\<bar> then bitlen \<lfloor>\<bar>x\<bar>\<rfloor> - 1 else - bitlen (\<lceil>1 / \<bar>x\<bar>\<rceil> - 1))"

text \<open>
  A double has 53 significant bits and its least exponent is \<open>-1022\<close>: the doubles around
  \<open>x\<close> are the multiples of \<open>2^quantum x\<close>, where the quantum of a subnormal number is
  \<open>2^-1074\<close>. \<open>fl x\<close> is the multiple nearest to \<open>x\<close>, a tie going to the even multiple
  (round to nearest, ties to even, the rounding of every ECMAScript arithmetic operation).
  A rounded result of magnitude \<open>2^1024\<close> or more, one whose binary exponent exceeds
  1023, is not a finite double: the operation overflows to an infinity (\<open>overflows\<close>).
\<close>

definition quantum :: "real \<Rightarrow> int" where
  "quantum x = max (binary_exponent x - 52) (- 1074)"

definition fl :: "real \<Rightarrow> real" where
  "fl x = of_int (round_half_even (x / 2 powi quantum x)) * 2 powi quantum x"

definition overflows :: "real \<Rightarrow> bool" where
  "overflows x \<longleftrightarrow> 1023 < binary_exponent x"

subsection \<open>Character classes and string primitives\<close>

text \<open>\<open>\w\<close> without the \<open>u\<close> and \<open>i\<close> flags: \<open>[A-Za-z0-9_]\<close>.\<close>

definition isWordChar :: "nat \<Rightarrow> bool" where
  "isWordChar c \<longleftrightarrow>
     (48 \<le> c \<and> c \<le> 57) \<or> (65 \<le> c \<and> c \<le> 90) \<or> c = 95 \<or> (97 \<le> c \<and> c \<le> 122)"

text \<open>
  The CJK class of \<open>chunker.ts\<close>: U+3040..U+309F, U+30A0..U+30FF, U+4E00..U+9FAF and
  U+AC00..U+D7AF.
\<close>

definition isCJK :: "nat \<Rightarrow> bool" where
  "isCJK c \<longleftrightarrow>
     (0x3040 \<le> c \<and> c \<le> 0x309F) \<or> (0x30A0 \<le> c \<and> c \<le> 0x30FF)
     \<or> (0x4E00 \<le> c \<and> c \<le> 0x9FAF) \<or> (0xAC00 \<le> c \<and> c \<le> 0xD7AF)"

text \<open>
  \<open>\s\<close>, which is also what \<open>String.prototype.trim\<close> strips: the ECMAScript white space
  and line terminator code units.
\<close>

definition isSpace :: "nat \<Rightarrow> bool" where
  "isSpace c \<longleftrightarrow>
     c \<in> set [9, 10, 11, 12, 13, 32, 0xA0, 0x1680, 0x2028, 0x2029, 0x202F, 0x205F, 0x3000, 0xFEFF]
     \<or> (0x2000 \<le> c \<and> c \<le> 0x200A)"

text \<open>
  The class of a word-like run (\<open>\w\<close> or CJK), and the class of a punctuation mark
  (neither \<open>\w\<close>, \<open>\s\<close> nor CJK).
\<close>

definition isWordLike :: "nat \<Rightarrow> bool" where
  "isWordLike c \<longleftrightarrow> isWordChar c \<or> isCJK c"

definition isPunctuation :: "nat \<Rightarrow> bool" where
  "isPunctuation c \<longleftrightarrow> \<not> isWordChar c \<and> \<not> isSpace c \<and> \<not> isCJK c"

text \<open>
  \<open>s.match(/[C]+/g)\<close>: the maximal runs of members of a class, left to right
  (\<open>null\<close> is the empty list; the program only takes the length).
\<close>

function runs_of :: "('a \<Rightarrow> bool) \<Rightarrow> 'a list \<Rightarrow> 'a list list" where
  "runs_of P [] = []"
| "runs_of P (x # xs) =
     (if P x then (x # takeWhile P xs) # runs_of P (dropWhile P xs) else runs_of P xs)"
  by pat_completeness auto
termination
  by (relation "measure (\<lambda>(P, xs). length xs)") (auto simp: less_Suc_eq_le length_dropWhile_le)

definition trim :: "jsstring \<Rightarrow> jsstring" where
  "trim s = rev (dropWhile isSpace (rev (dropWhile isSpace s)))"

definition occurs_at :: "'a list \<Rightarrow> 'a list \<Rightarrow> nat \<Rightarrow> bool" where
  "occurs_at sub s i \<longleftrightarrow> take (length sub) (drop i s) = sub"

text \<open>
  \<open>s.indexOf(sub, from)\<close> and \<open>s.lastIndexOf(sub)\<close>; \<open>None\<close> is the program's \<open>-1\<close>.
  The empty string occurs at every position up to the length.
\<close>

definition indexOf :: "'a list \<Rightarrow> 'a list \<Rightarrow> nat \<Rightarrow> nat option" where
  "indexOf sub s from = List.find (occurs_at sub s) [min from (length s) ..< Suc (length s)]"

definition lastIndexOf :: "'a list \<Rightarrow> 'a list \<Rightarrow> nat option" where
  "lastIndexOf sub s = List.find (occurs_at sub s) (rev [0 ..< Suc (length s)])"

definition str_includes :: "'a list \<Rightarrow> 'a list \<Rightarrow> bool" where
  "str_includes s sub \<longleftrightarrow> list_ex (occurs_at sub s) [0 ..< Suc (length s)]"

text \<open>
  \<open>s.split(re)\<close> for a separator pattern without capture groups that never matches the empty
  string. The matcher gets the text before the current position (for a lookbehind) and the
  text from it on, and returns the length of the match that starts there. As in
  ECMAScript, a match is tried at each position in turn, the piece before a match is
  emitted, and the rest after the last match is the last piece.
\<close>

function split_re :: "(jsstring \<Rightarrow> jsstring \<Rightarrow> nat option) \<Rightarrow> jsstring \<Rightarrow> jsstring \<Rightarrow> jsstring
    \<Rightarrow> jsstring list" where
  "split_re m pre acc [] = [acc]"
| "split_re m pre acc (x # xs) =
     (case m pre (x # xs) of
        None \<Rightarrow> split_re m (pre @ [x]) (acc @ [x]) xs
      | Some n \<Rightarrow>
          if n = 0 then split_re m (pre @ [x]) (acc @ [x]) xs
          else acc # split_re m (pre @ take n (x # xs)) [] (drop n (x # xs)))"
  by pat_completeness auto
termination
  by (relation "measure (\<lambda>(m, pre, acc, s). length s)") auto

text \<open>\<open>/\s+/\<close>: a maximal run of white space.\<close>

definition sep_spaces :: "jsstring \<Rightarrow> jsstring \<Rightarrow> nat option" where
  "sep_spaces pre s = (let n = length (takeWhile isSpace s) in if n = 0 then None else Some n)"

text \<open>
  \<open>/\n\s*\n/\<close>: a line feed, then white space up to the last line feed of the white-space
  run that follows (the greedy \<open>\s*\<close> gives back what lies after that line feed).
\<close>

definition sep_paragraph :: "jsstring \<Rightarrow> jsstring \<Rightarrow> nat option" where
  "sep_paragraph pre s =
     (case s of
        [] \<Rightarrow> None
      | c # r \<Rightarrow>
          if c = 10 then
            (let run = takeWhile isSpace r in
             if 10 \<in> set run
             then Some (1 + (length run - length (takeWhile (\<lambda>d. d \<noteq> 10) (rev run))))
             else None)
          else None)"

text \<open>
  The sentence separator \<open>(?<=[.!?])(?:\s+)(?=[A-Z0-9..."])\<close>: a white-space run that
  follows one of \<open>.!?\<close> and is followed by a capital, a digit, a code unit in
  U+4E00..U+9FAF or U+AC00..U+D7AF, or a double quote. No member of the lookahead class is white space, so only the
  whole run can match.
\<close>

definition isSentenceEnd :: "nat \<Rightarrow> bool" where
  "isSentenceEnd c \<longleftrightarrow> c = 46 \<or> c = 33 \<or> c = 63"

definition isSentenceStart :: "nat \<Rightarrow> bool" where
  "isSentenceStart c \<longleftrightarrow>
     (65 \<le> c \<and> c \<le> 90) \<or> (48 \<le> c \<and> c \<le> 57)
     \<or> (0x4E00 \<le> c \<and> c \<le> 0x9FAF) \<or> (0xAC00 \<le> c \<and> c \<le> 0xD7AF) \<or> c = 34"

definition sep_sentence :: "jsstring \<Rightarrow> jsstring \<Rightarrow> nat option" where
  "sep_sentence pre s =
     (if pre \<noteq> [] \<and> isSentenceEnd (last pre) then
        (let run = takeWhile isSpace s; rest = dropWhile isSpace s in
         if run \<noteq> [] \<and> rest \<noteq> [] \<and> isSentenceStart (hd rest) then Some (length run) else None)
      else None)"

text \<open>\<open>words.join(' ')\<close>.\<close>

fun join_space :: "jsstring list \<Rightarrow> jsstring" where
  "join_space [] = []"
| "join_space [w] = w"
| "join_space (w # ws) = w @ [32] @ join_space ws"

section \<open>The chunker (\<open>src/embeddings/chunker.ts\<close>)\<close>

record document_chunk =
  chunk_hash :: string
  seq :: nat
  pos :: nat
  chunk_text :: jsstring
  tokenCount :: int

record chunk_options =
  opt_maxTokens :: "real option"
  opt_overlapPercent :: "real option"

record text_segment =
  seg_text :: jsstring
  seg_tokens :: int
  startPos :: nat

definition ABBREVIATIONS :: "jsstring list" where
  "ABBREVIATIONS = map ascii
    [''Mr'', ''Mrs'', ''Ms'', ''Dr'', ''Prof'', ''Sr'', ''Jr'', ''vs'', ''etc'', ''Inc'', ''Ltd'', ''Co'',
     ''i.e'', ''e.g'', ''cf'', ''viz'', ''al'', ''et'', ''approx'', ''dept'', ''est'', ''min'', ''max'',
     ''Jan'', ''Feb'', ''Mar'', ''Apr'', ''Jun'', ''Jul'', ''Aug'', ''Sep'', ''Oct'', ''Nov'', ''Dec'']"

text \<open>The fields of a \<open>DocumentChunker\<close> and its constructor (defaults 800 and 0.15).\<close>

record chunker =
  maxTokens :: real
  overlapPercent :: real
  overlapTokens :: int

definition DocumentChunker :: "chunk_options option \<Rightarrow> chunker" where
  "DocumentChunker options =
     (let mt = (case options of
                  None \<Rightarrow> 800
                | Some opts \<Rightarrow> (case opt_maxTokens opts of None \<Rightarrow> 800 | Some v \<Rightarrow> v));
          op = (case options of
                  None \<Rightarrow> 15 / 100
                | Some opts \<Rightarrow> (case opt_overlapPercent opts of None \<Rightarrow> 15 / 100 | Some v \<Rightarrow> v))
      in \<lparr>maxTokens = mt, overlapPercent = op, overlapTokens = \<lfloor>mt * op\<rfloor>\<rparr>)"

text \<open>
  \<open>estimateTokenCount\<close>. The factor \<open>1.3\<close> is the exact \<open>13/10\<close>: the word count is a multiple
  of one half, so the product is an integer or at least \<open>1/20\<close> away from one, and the
  rounding of the double product cannot move the ceiling for any count a string can reach.
\<close>

definition estimateTokenCount :: "jsstring \<Rightarrow> int" where
  "estimateTokenCount text =
    (if text = [] then 0
     else
       let wordCount = length (runs_of isWordLike text);
           punctuationCount = length (filter isPunctuation text);
           cjkCount = length (filter isCJK text);
           englishWordCount =
             real wordCount - (if cjkCount > 0 then min (real wordCount) (real cjkCount / 2) else 0);
           englishTokens = \<lceil>englishWordCount * (13 / 10)\<rceil>
       in englishTokens + int cjkCount + \<lceil>real punctuationCount * (1 / 2)\<rceil>)"

text \<open>
  \<open>splitIntoSentences\<close>. \<open>lastWordOf\<close> is the last white-space separated word of the
  trimmed part without its trailing \<open>.!?\<close>; \<open>sentencesOfParts\<close> is the loop over the parts
  of one paragraph, where a part that ends in an abbreviation is glued, with one space, to
  the front of the next part.
\<close>

definition lastWordOf :: "jsstring \<Rightarrow> jsstring" where
  "lastWordOf part =
     (let words = split_re sep_spaces [] [] (trim part)
      in rev (dropWhile isSentenceEnd (rev (last words))))"

fun sentencesOfParts :: "jsstring list \<Rightarrow> jsstring list" where
  "sentencesOfParts [] = []"
| "sentencesOfParts [part] = (if trim part \<noteq> [] then [trim part] else [])"
| "sentencesOfParts (part # nxt # rest) =
     (let lastWord = lastWordOf part in
      if lastWord \<noteq> [] \<and> lastWord \<in> set ABBREVIATIONS
      then sentencesOfParts ((part @ [32] @ nxt) # rest)
      else (if trim part \<noteq> [] then [trim part] else []) @ sentencesOfParts (nxt # rest))"

definition splitIntoSentences :: "jsstring \<Rightarrow> jsstring list" where
  "splitIntoSentences text =
     (if text = [] then []
      else
        let paragraphs = split_re sep_paragraph [] [] text;
            sentences =
              concat (map (\<lambda>para. if trim para = [] then []
                                  else sentencesOfParts (split_re sep_sentence [] [] para))
                        paragraphs)
        in if sentences \<noteq> [] then sentences else [trim text])"

text \<open>\<open>text.split(/(\s+)/).filter(Boolean)\<close>: the maximal runs of white space and of
  anything else, in order.\<close>

function splitIntoWords :: "jsstring \<Rightarrow> jsstring list" where
  "splitIntoWords [] = []"
| "splitIntoWords (x # xs) =
     (if isSpace x then (x # takeWhile isSpace xs) # splitIntoWords (dropWhile isSpace xs)
      else (x # takeWhile (\<lambda>c. \<not> isSpace c) xs)
             # splitIntoWords (dropWhile (\<lambda>c. \<not> isSpace c) xs))"
  by pat_completeness auto
termination
  by (relation "measure length") (auto simp: less_Suc_eq_le length_dropWhile_le)

text \<open>
  \<open>buildSegments\<close>. \<open>wordStep\<close> is the body of the loop over the words of a sentence that is
  too long, on the variables \<open>(wordChunk, wordPos, chunkStartPos, segments)\<close>;
  \<open>sentenceStep\<close> is the body of the loop over the sentences, on \<open>(currentPos, segments)\<close>.
\<close>

definition wordStep :: "chunker \<Rightarrow> jsstring \<times> nat \<times> nat \<times> text_segment list \<Rightarrow> jsstring
    \<Rightarrow> jsstring \<times> nat \<times> nat \<times> text_segment list" where
  "wordStep c st word =
     (case st of (wordChunk, wordPos, chunkStartPos, segments) \<Rightarrow>
        let testChunk = wordChunk @ word;
            testTokens = estimateTokenCount testChunk
        in if real_of_int testTokens > maxTokens c \<and> trim wordChunk \<noteq> []
           then (word, wordPos + length word, wordPos,
                 segments @ [\<lparr>seg_text = trim wordChunk,
                               seg_tokens = estimateTokenCount (trim wordChunk),
                               startPos = chunkStartPos\<rparr>])
           else (testChunk, wordPos + length word, chunkStartPos, segments))"

definition sentenceStep :: "chunker \<Rightarrow> jsstring \<Rightarrow> nat \<times> text_segment list \<Rightarrow> jsstring
    \<Rightarrow> nat \<times> text_segment list" where
  "sentenceStep c content st sentence =
     (case st of (currentPos, segments) \<Rightarrow>
        let actualPos = (case indexOf (trim sentence) content currentPos of
                           None \<Rightarrow> currentPos
                         | Some p \<Rightarrow> p);
            tokens = estimateTokenCount sentence;
            segments' =
              (if real_of_int tokens > maxTokens c then
                 (case foldl (wordStep c) ([], actualPos, actualPos, segments)
                         (splitIntoWords sentence) of
                    (wordChunk, wordPos, chunkStartPos, segs) \<Rightarrow>
                      if trim wordChunk \<noteq> []
                      then segs @ [\<lparr>seg_text = trim wordChunk,
                                     seg_tokens = estimateTokenCount (trim wordChunk),
                                     startPos = chunkStartPos\<rparr>]
                      else segs)
               else segments @ [\<lparr>seg_text = sentence, seg_tokens = tokens, startPos = actualPos\<rparr>])
        in (actualPos + length sentence, segments'))"

definition buildSegments :: "chunker \<Rightarrow> jsstring \<Rightarrow> text_segment list" where
  "buildSegments c content =
     snd (foldl (sentenceStep c content) (0, []) (splitIntoSentences content))"

text \<open>
  \<open>extractOverlapText\<close>. \<open>overlapLoop\<close> walks the words from the last one backwards and
  stops at the first word that would exceed the target.
\<close>

fun overlapLoop :: "int \<Rightarrow> jsstring list \<Rightarrow> int \<Rightarrow> jsstring list \<Rightarrow> jsstring list" where
  "overlapLoop targetTokens [] currentTokens overlapWords = overlapWords"
| "overlapLoop targetTokens (w # ws) currentTokens overlapWords =
     (let wordTokens = estimateTokenCount w in
      if currentTokens + wordTokens > targetTokens then overlapWords
      else overlapLoop targetTokens ws (currentTokens + wordTokens) (w # overlapWords))"

definition extractOverlapText :: "jsstring \<Rightarrow> int \<Rightarrow> jsstring \<times> nat" where
  "extractOverlapText txt targetTokens =
     (if targetTokens \<le> 0 then ([], length txt)
      else
        let words = split_re sep_spaces [] [] txt;
            overlapWords = overlapLoop targetTokens (rev words) 0 [];
            overlapText = join_space overlapWords
        in (overlapText,
            (case lastIndexOf overlapText txt of
               Some p \<Rightarrow> p
             | None \<Rightarrow> length txt - length overlapText)))"

text \<open>
  \<open>chunkDocument\<close>. The local variables of the method are the fields of \<open>chunk_state\<close>
  (\<open>seq_counter\<close> is \<open>seq\<close>, \<open>overlapTokens_var\<close> the local \<open>overlapTokens\<close>);
  \<open>flushChunk\<close> is the closure of that name and \<open>segmentStep\<close> the body of the loop over
  the segments.
\<close>

record chunk_state =
  chunks :: "document_chunk list"
  currentChunkSegments :: "text_segment list"
  currentTokens :: int
  seq_counter :: nat
  chunkStartPos :: nat
  overlapText :: jsstring
  overlapTokens_var :: int
  overlapStartOffset :: nat

definition flushChunk :: "chunker \<Rightarrow> string \<Rightarrow> chunk_state \<Rightarrow> chunk_state" where
  "flushChunk c h st =
     (if currentChunkSegments st = [] then st
      else
        let chunkText = join_space (map seg_text (currentChunkSegments st));
            actualTokens = estimateTokenCount chunkText;
            overlap = extractOverlapText chunkText (overlapTokens c)
        in st\<lparr>chunks := chunks st @ [\<lparr>chunk_hash = h, seq = seq_counter st, pos = chunkStartPos st,
                                       chunk_text = chunkText, tokenCount = actualTokens\<rparr>],
               overlapText := fst overlap,
               overlapTokens_var := estimateTokenCount (fst overlap),
               overlapStartOffset := snd overlap,
               seq_counter := seq_counter st + 1\<rparr>)"

definition segmentStep :: "chunker \<Rightarrow> string \<Rightarrow> chunk_state \<Rightarrow> text_segment \<Rightarrow> chunk_state" where
  "segmentStep c h st segment =
     (let testTokens = currentTokens st + seg_tokens segment;
          st1 =
            (if real_of_int testTokens > maxTokens c then
               let s0 = (flushChunk c h st)\<lparr>currentChunkSegments := [], currentTokens := 0\<rparr>
               in if overlapText s0 \<noteq> [] then
                    let s1 = (if chunks s0 = [] then s0
                              else s0\<lparr>chunkStartPos :=
                                        pos (last (chunks s0)) + overlapStartOffset s0\<rparr>)
                    in s1\<lparr>currentChunkSegments :=
                             [\<lparr>seg_text = overlapText s1, seg_tokens = overlapTokens_var s1,
                               startPos = chunkStartPos s1\<rparr>],
                           currentTokens := overlapTokens_var s1\<rparr>
                  else s0\<lparr>chunkStartPos := startPos segment\<rparr>
             else st);
          st2 = (if currentChunkSegments st1 = [] then st1\<lparr>chunkStartPos := startPos segment\<rparr>
                 else st1)
      in st2\<lparr>currentChunkSegments := currentChunkSegments st2 @ [segment],
             currentTokens := currentTokens st2 + seg_tokens segment\<rparr>)"

definition initial_state :: chunk_state where
  "initial_state =
     \<lparr>chunks = [], currentChunkSegments = [], currentTokens = 0, seq_counter = 0,
      chunkStartPos = 0, overlapText = [], overlapTokens_var = 0, overlapStartOffset = 0\<rparr>"

definition finalChunks :: "string \<Rightarrow> chunk_state \<Rightarrow> document_chunk list" where
  "finalChunks h st =
     (if currentChunkSegments st \<noteq> [] then
        let chunkText = join_space (map seg_text (currentChunkSegments st));
            actualTokens = estimateTokenCount chunkText
        in chunks st @ [\<lparr>chunk_hash = h, seq = seq_counter st, pos = chunkStartPos st,
                          chunk_text = chunkText, tokenCount = actualTokens\<rparr>]
      else chunks st)"

definition chunkDocument :: "chunker \<Rightarrow> string \<Rightarrow> jsstring \<Rightarrow> document_chunk list" where
  "chunkDocument c h content =
     (if content = [] \<or> trim content = [] then []
      else
        let trimmedContent = trim content;
            totalTokens = estimateTokenCount trimmedContent
        in if real_of_int totalTokens \<le> maxTokens c
           then [\<lparr>chunk_hash = h, seq = 0, pos = 0, chunk_text = trimmedContent,
                  tokenCount = totalTokens\<rparr>]
           else finalChunks h
                  (foldl (segmentStep c h) initial_state (buildSegments c trimmedContent)))"

section \<open>Errors\<close>

text \<open>
  The error classes of the program and their \<open>code\<close> fields. \<open>Error\<close> is a plain
  \<open>Error\<close> (what the database driver throws), \<open>NonError\<close> any thrown value that is not an
  instance of \<open>Error\<close>; \<open>error_message\<close> is \<open>error.message\<close> where
  \<open>error instanceof Error\<close> holds.
\<close>

datatype error_code =
    DB_NOT_INITIALIZED | INVALID_QUERY | QUERY_ERROR
  | EMBEDDER_NOT_AVAILABLE | INVALID_EMBEDDING | DIMENSION_MISMATCH
  | SEARCHER_NOT_INITIALIZED | ALL_SEARCHES_FAILED | INVALID_OPTIONS | NO_RESULTS

datatype js_error =
    Error string
  | SearchError string error_code
  | VectorSearchError string error_code
  | HybridSearchError string error_code
  | EmbeddingError string
  | NonError

fun error_message :: "js_error \<Rightarrow> string option" where
  "error_message (Error m) = Some m"
| "error_message (SearchError m c) = Some m"
| "error_message (VectorSearchError m c) = Some m"
| "error_message (HybridSearchError m c) = Some m"
| "error_message (EmbeddingError m) = Some m"
| "error_message NonError = None"

section \<open>The lexical searcher (\<open>search/fts-search\<close>)\<close>

record SearchResult =
  fts_hash :: string
  fts_title :: string
  fts_content :: jsstring
  fts_path :: string
  fts_score :: real
  fts_snippet :: jsstring
  fts_rank :: nat

record SearchOptions =
  so_collectionFilter :: "string option"
  so_minScore :: "real option"
  so_limit :: "int option"

text \<open>
  The database is a collaborator. \<open>fts_query\<close> is what the searcher hands to it (the
  bound parameters and the two switches of the SQL text: the collection join, the
  \<open>abs(bm25) <= ?\<close> conjunct and the snippet column), \<open>fts_row\<close> a row it steps through,
  and an \<open>fts_engine\<close> the outcome of \<open>prepare\<close>, \<open>bind\<close>, \<open>step\<close> and \<open>get\<close>: the rows, or
  what was thrown.
\<close>

record fts_query =
  q_match :: jsstring
  q_collection :: "string option"
  q_threshold :: "jsnum option"
  q_limit :: int
  q_snippets :: bool

record fts_row =
  row_hash :: string
  row_title :: string
  row_content :: jsstring
  row_path :: string
  row_bm25 :: real
  row_snippet :: "jsstring option"

type_synonym fts_engine = "fts_query \<Rightarrow> js_error + fts_row list"

record FTSSearcher =
  initialized :: bool

text \<open>The constructor with \<open>validateDatabase\<close>; the argument says whether \<open>db\<close> is truthy.\<close>

definition FTSSearcher_new :: "bool \<Rightarrow> js_error + FTSSearcher" where
  "FTSSearcher_new db_present =
     (if \<not> db_present then Inl (SearchError ''Database not initialized'' DB_NOT_INITIALIZED)
      else Inr \<lparr>initialized = True\<rparr>)"

text \<open>
  \<open>normalizeBM25Score\<close> and \<open>denormalizeToBM25\<close>, each operation rounded. The second
  returns \<open>Infinity\<close> for a score that is not positive, and also when \<open>100 / normalizedScore\<close>
  overflows (\<open>Infinity - 1\<close> is \<open>Infinity\<close>); on \<open>Infinity\<close>, and when \<open>1 + absScore\<close>
  overflows, the first computes \<open>1 / Infinity * 100 = 0\<close>.
\<close>

fun normalizeBM25Score :: "jsnum \<Rightarrow> real" where
  "normalizeBM25Score (Finite bm25Score) =
     (let absScore = \<bar>bm25Score\<bar>;
          denominator = fl (1 + absScore)
      in if overflows denominator then 0 else fl (fl (1 / denominator) * 100))"
| "normalizeBM25Score Infinity = 0"

definition denormalizeToBM25 :: "real \<Rightarrow> jsnum" where
  "denormalizeToBM25 normalizedScore =
     (if normalizedScore \<le> 0 then Infinity
      else if normalizedScore \<ge> 100 then Finite 0
      else
        let quotient = fl (100 / normalizedScore)
        in if overflows quotient then Infinity else Finite (fl (quotient - 1)))"

text \<open>
  \<open>sanitizeFTS5Query\<close>. \<open>FTS5_EXPLICIT_SYNTAX\<close> is the test of the pattern of that name,
  which carries the \<open>i\<close> flag: a quote, star or question mark; \<open>AND\<close>, \<open>OR\<close> or \<open>NOT\<close>
  between white space or the ends of the string; or \<open>title:\<close> or \<open>content:\<close>. Without the
  \<open>u\<close> flag, only the two ASCII cases of a letter match it.
\<close>

definition upper_ascii :: "nat \<Rightarrow> nat" where
  "upper_ascii c = (if 97 \<le> c \<and> c \<le> 122 then c - 32 else c)"

definition keyword_at :: "jsstring \<Rightarrow> nat \<Rightarrow> jsstring \<Rightarrow> bool" where
  "keyword_at s i w \<longleftrightarrow>
     (i = 0 \<or> isSpace (s ! (i - 1)))
     \<and> map upper_ascii (take (length w) (drop i s)) = w
     \<and> (i + length w = length s \<or> (i + length w < length s \<and> isSpace (s ! (i + length w))))"

definition FTS5_EXPLICIT_SYNTAX :: "jsstring \<Rightarrow> bool" where
  "FTS5_EXPLICIT_SYNTAX s \<longleftrightarrow>
     list_ex (\<lambda>c. c = 34 \<or> c = 42 \<or> c = 63) s
     \<or> list_ex (\<lambda>i. list_ex (keyword_at s i) [ascii ''AND'', ascii ''OR'', ascii ''NOT''])
          [0 ..< length s]
     \<or> str_includes (map upper_ascii s) (ascii ''TITLE:'')
     \<or> str_includes (map upper_ascii s) (ascii ''CONTENT:'')"

definition FTS5_SPECIAL_CHARS :: "nat \<Rightarrow> bool" where
  "FTS5_SPECIAL_CHARS c \<longleftrightarrow> c \<in> set [40, 41, 123, 125, 94, 58, 45]"

function collapse_spaces :: "jsstring \<Rightarrow> jsstring" where
  "collapse_spaces [] = []"
| "collapse_spaces (x # xs) =
     (if isSpace x then 32 # collapse_spaces (dropWhile isSpace xs) else x # collapse_spaces xs)"
  by pat_completeness auto
termination
  by (relation "measure length") (auto simp: less_Suc_eq_le length_dropWhile_le)

definition sanitizeFTS5Query :: "jsstring \<Rightarrow> jsstring" where
  "sanitizeFTS5Query query =
     (if query = [] then []
      else
        let sanitized = trim query in
        if sanitized = [] then []
        else if FTS5_EXPLICIT_SYNTAX sanitized then sanitized
        else trim (collapse_spaces
               (map (\<lambda>c. if FTS5_SPECIAL_CHARS c then 32 else c)
                  (concat (map (\<lambda>c. if c = 34 then [34, 34] else [c]) sanitized)))))"

definition FTS_DEFAULT_LIMIT :: int where
  "FTS_DEFAULT_LIMIT = 20"

text \<open>
  The statement that both search methods prepare and bind; an empty \<open>collectionFilter\<close> is
  falsy and selects the statement without the collection join.
\<close>

definition build_query :: "jsstring \<Rightarrow> SearchOptions option \<Rightarrow> bool \<Rightarrow> fts_query" where
  "build_query sanitizedQuery options withSnippets =
     (let limit = (case options of
                     None \<Rightarrow> FTS_DEFAULT_LIMIT
                   | Some opts \<Rightarrow> (case so_limit opts of None \<Rightarrow> FTS_DEFAULT_LIMIT | Some l \<Rightarrow> l));
          collectionFilter = (case options of None \<Rightarrow> None | Some opts \<Rightarrow> so_collectionFilter opts);
          minScore = (case options of None \<Rightarrow> None | Some opts \<Rightarrow> so_minScore opts);
          bm25Threshold = (case minScore of None \<Rightarrow> None | Some m \<Rightarrow> Some (denormalizeToBM25 m))
      in \<lparr>q_match = sanitizedQuery,
          q_collection = (case collectionFilter of
                            None \<Rightarrow> None
                          | Some name \<Rightarrow> if name = [] then None else Some name),
          q_threshold = bm25Threshold, q_limit = limit, q_snippets = withSnippets\<rparr>)"

text \<open>\<open>FTSSearcher.search\<close>: the rows in order, with rank from 1 and snippet \<open>''\<close>.\<close>

definition FTSSearcher_search :: "FTSSearcher \<Rightarrow> fts_engine \<Rightarrow> jsstring \<Rightarrow> SearchOptions option
    \<Rightarrow> js_error + SearchResult list" where
  "FTSSearcher_search s db query options =
     (if \<not> initialized s then Inl (SearchError ''Database not initialized'' DB_NOT_INITIALIZED)
      else
        let sanitizedQuery = sanitizeFTS5Query query in
        if sanitizedQuery = [] then Inr []
        else
          (case db (build_query sanitizedQuery options False) of
             Inr rows \<Rightarrow>
               Inr (map (\<lambda>(i, row).
                           \<lparr>fts_hash = row_hash row, fts_title = row_title row,
                            fts_content = row_content row, fts_path = row_path row,
                            fts_score = normalizeBM25Score (Finite (row_bm25 row)),
                            fts_snippet = [], fts_rank = i + 1\<rparr>)
                      (enumerate 0 rows))
           | Inl err \<Rightarrow>
               (case error_message err of
                  Some m \<Rightarrow>
                    if str_includes m ''fts5'' then Inr []
                    else Inl (SearchError (''Search query failed: '' @ m) QUERY_ERROR)
                | None \<Rightarrow> Inl (SearchError ''Search query failed: Unknown error'' QUERY_ERROR))))"

text \<open>\<open>FTSSearcher.searchWithSnippets\<close>: the same with the snippet column, \<open>''\<close> when it
  is null or empty.\<close>

definition FTSSearcher_searchWithSnippets :: "FTSSearcher \<Rightarrow> fts_engine \<Rightarrow> jsstring
    \<Rightarrow> SearchOptions option \<Rightarrow> js_error + SearchResult list" where
  "FTSSearcher_searchWithSnippets s db query options =
     (if \<not> initialized s then Inl (SearchError ''Database not initialized'' DB_NOT_INITIALIZED)
      else
        let sanitizedQuery = sanitizeFTS5Query query in
        if sanitizedQuery = [] then Inr []
        else
          (case db (build_query sanitizedQuery options True) of
             Inr rows \<Rightarrow>
               Inr (map (\<lambda>(i, row).
                           \<lparr>fts_hash = row_hash row, fts_title = row_title row,
                            fts_content = row_content row, fts_path = row_path row,
                            fts_score = normalizeBM25Score (Finite (row_bm25 row)),
                            fts_snippet = (case row_snippet row of None \<Rightarrow> [] | Some sn \<Rightarrow> sn),
                            fts_rank = i + 1\<rparr>)
                      (enumerate 0 rows))
           | Inl err \<Rightarrow>
               (case error_message err of
                  Some m \<Rightarrow>
                    if str_includes m ''fts5'' then Inr []
                    else Inl (SearchError (''Search query failed: '' @ m) QUERY_ERROR)
                | None \<Rightarrow> Inl (SearchError ''Search query failed: Unknown error'' QUERY_ERROR))))"

section \<open>The vector searcher (\<open>search/vector-search\<close>)\<close>

record VectorSearchResult =
  vec_hash :: string
  vec_title :: string
  vec_content :: jsstring
  vec_path :: string
  vec_similarity :: real
  vec_distance :: real
  vec_rank :: nat

record VectorSearchOptions =
  vo_collectionFilter :: "string option"
  vo_limit :: "int option"
  vo_minSimilarity :: "real option"

record vec_query =
  vq_embedding :: "real list"
  vq_k :: int
  vq_collection :: "string option"

record vec_row =
  vrow_hash_seq :: string
  vrow_distance :: real
  vrow_hash :: string
  vrow_seq :: int
  vrow_title :: string
  vrow_content :: jsstring
  vrow_path :: string

type_synonym vec_engine = "vec_query \<Rightarrow> js_error + vec_row list"

text \<open>
  The embedding service: what \<open>isAvailable\<close>, \<open>getInstallInstructions\<close> and
  \<open>generateEmbedding\<close> answer. \<open>embedder_call\<close> records a call that a search made to it.
\<close>

record OllamaEmbedder =
  isAvailable :: bool
  getInstallInstructions :: string
  generateEmbedding :: "jsstring \<Rightarrow> js_error + real list"

datatype embedder_call = Call_isAvailable | Call_getInstallInstructions | Call_generateEmbedding jsstring

record VectorSearcher =
  vs_initialized :: bool

definition VectorSearcher_new :: "bool \<Rightarrow> js_error + VectorSearcher" where
  "VectorSearcher_new db_present =
     (if \<not> db_present then Inl (VectorSearchError ''Database not initialized'' DB_NOT_INITIALIZED)
      else Inr \<lparr>vs_initialized = True\<rparr>)"

definition VEC_DEFAULT_LIMIT :: int where
  "VEC_DEFAULT_LIMIT = 20"

definition EXPECTED_DIMENSIONS :: nat where
  "EXPECTED_DIMENSIONS = 768"

text \<open>
  \<open>distanceToSimilarity\<close> and \<open>similarityToDistance\<close>, each operation rounded. The clamped
  operand lies between 0 and 2, or 0 and 100, so nothing overflows.
\<close>

definition distanceToSimilarity :: "real \<Rightarrow> real" where
  "distanceToSimilarity distance =
     (let clampedDistance = max 0 (min 2 distance)
      in fl (fl (1 - fl (clampedDistance / 2)) * 100))"

definition similarityToDistance :: "real \<Rightarrow> real" where
  "similarityToDistance similarity =
     (let clampedSimilarity = max 0 (min 100 similarity)
      in fl (2 * fl (1 - fl (clampedSimilarity / 100))))"

text \<open>
  The loop over the rows of \<open>searchWithEmbedding\<close>: a row beyond \<open>maxDistance\<close> is skipped
  and takes no rank.
\<close>

fun collect_rows :: "real option \<Rightarrow> nat \<Rightarrow> vec_row list \<Rightarrow> VectorSearchResult list" where
  "collect_rows maxDistance rank [] = []"
| "collect_rows maxDistance rank (row # rows) =
     (if (case maxDistance of None \<Rightarrow> False | Some d \<Rightarrow> vrow_distance row > d)
      then collect_rows maxDistance rank rows
      else \<lparr>vec_hash = vrow_hash row, vec_title = vrow_title row, vec_content = vrow_content row,
            vec_path = vrow_path row, vec_similarity = distanceToSimilarity (vrow_distance row),
            vec_distance = vrow_distance row, vec_rank = rank\<rparr>
           # collect_rows maxDistance (rank + 1) rows)"

definition VectorSearcher_searchWithEmbedding :: "VectorSearcher \<Rightarrow> vec_engine \<Rightarrow> real list
    \<Rightarrow> VectorSearchOptions option \<Rightarrow> js_error + VectorSearchResult list" where
  "VectorSearcher_searchWithEmbedding s db embedding options =
     (if \<not> vs_initialized s
      then Inl (VectorSearchError ''Database not initialized'' DB_NOT_INITIALIZED)
      else if length embedding \<noteq> EXPECTED_DIMENSIONS
      then Inl (VectorSearchError ''Invalid embedding dimensions'' DIMENSION_MISMATCH)
      else
        let limit = (case options of
                       None \<Rightarrow> VEC_DEFAULT_LIMIT
                     | Some opts \<Rightarrow> (case vo_limit opts of None \<Rightarrow> VEC_DEFAULT_LIMIT | Some l \<Rightarrow> l));
            collectionFilter = (case options of None \<Rightarrow> None | Some opts \<Rightarrow> vo_collectionFilter opts);
            minSimilarity = (case options of None \<Rightarrow> None | Some opts \<Rightarrow> vo_minSimilarity opts);
            maxDistance = (case minSimilarity of None \<Rightarrow> None | Some m \<Rightarrow> Some (similarityToDistance m))
        in (case db \<lparr>vq_embedding = embedding, vq_k = limit,
                      vq_collection = (case collectionFilter of
                                         None \<Rightarrow> None
                                       | Some name \<Rightarrow> if name = [] then None else Some name)\<rparr> of
              Inr rows \<Rightarrow> Inr (collect_rows maxDistance 1 rows)
            | Inl err \<Rightarrow>
                (case error_message err of
                   Some m \<Rightarrow>
                     if str_includes m ''no such table: vectors_vec''
                     then Inl (VectorSearchError
                           ''Vector search table not initialized. Run embedding generation first.''
                           DB_NOT_INITIALIZED)
                     else if str_includes m ''vec0''
                     then Inl (VectorSearchError (''Vector search query failed: '' @ m) QUERY_ERROR)
                     else Inl (VectorSearchError (''Search query failed: '' @ m) QUERY_ERROR)
                 | None \<Rightarrow>
                     Inl (VectorSearchError ''Search query failed: Unknown error'' QUERY_ERROR))))"

text \<open>
  \<open>VectorSearcher.search\<close>, with the calls it makes to the embedding service, in order. The
  promise of \<open>searchWithEmbedding\<close> is returned without \<open>await\<close>, so the \<open>catch\<close> of
  \<open>search\<close> only sees what \<open>generateEmbedding\<close> throws.
\<close>

definition VectorSearcher_search :: "VectorSearcher \<Rightarrow> OllamaEmbedder \<Rightarrow> vec_engine \<Rightarrow> jsstring
    \<Rightarrow> VectorSearchOptions option \<Rightarrow> embedder_call list \<times> (js_error + VectorSearchResult list)" where
  "VectorSearcher_search s embedder db query options =
     (if \<not> vs_initialized s
      then ([], Inl (VectorSearchError ''Database not initialized'' DB_NOT_INITIALIZED))
      else if query = [] \<or> length (trim query) = 0 then ([], Inr [])
      else if \<not> isAvailable embedder
      then ([Call_isAvailable, Call_getInstallInstructions],
            Inl (VectorSearchError
                   (''Ollama embedding service not available. '' @ getInstallInstructions embedder)
                   EMBEDDER_NOT_AVAILABLE))
      else
        (case generateEmbedding embedder (trim query) of
           Inr embedding \<Rightarrow>
             ([Call_isAvailable, Call_generateEmbedding (trim query)],
              VectorSearcher_searchWithEmbedding s db embedding options)
         | Inl err \<Rightarrow>
             ([Call_isAvailable, Call_generateEmbedding (trim query)],
              (case err of
                 EmbeddingError m \<Rightarrow>
                   Inl (VectorSearchError (''Failed to generate query embedding: '' @ m)
                          EMBEDDER_NOT_AVAILABLE)
               | VectorSearchError m code \<Rightarrow> Inl (VectorSearchError m code)
               | _ \<Rightarrow>
                   (case error_message err of
                      Some m \<Rightarrow> Inl (VectorSearchError (''Search failed: '' @ m) QUERY_ERROR)
                    | None \<Rightarrow> Inl (VectorSearchError ''Search failed: Unknown error'' QUERY_ERROR))))))"

section \<open>Hybrid search (\<open>src/search/hybrid-search.ts\<close>)\<close>

text \<open>
  \<open>fused_entry\<close> is a value of \<open>scoreMap\<close>; a \<open>HybridSearchResult\<close> is such an entry
  spread into a new object with \<open>normalizedScore\<close> and \<open>rank\<close>. An absent optional field
  is \<open>None\<close>.
\<close>

record fused_entry =
  hash :: string
  title :: string
  content :: jsstring
  path :: string
  rrfScore :: real
  bm25Score :: "real option"
  similarity :: "real option"
  bm25Rank :: "nat option"
  vectorRank :: "nat option"
  snippet :: jsstring

record HybridSearchResult = fused_entry +
  normalizedScore :: real
  rank :: nat

record HybridSearchOptions =
  collectionFilter :: "string option"
  limit :: "int option"
  minScore :: "real option"
  rrfK :: "real option"
  candidateLimit :: "int option"
  enableBM25 :: "bool option"
  enableVector :: "bool option"

datatype FallbackStrategy = Fail | Graceful

text \<open>
  A \<open>HybridSearcher\<close> holds its two searchers and the strategy. The searchers enter as what
  their \<open>search\<close> methods return on this database and embedding service.
\<close>

record HybridSearcher =
  ftsSearcher :: "jsstring \<Rightarrow> SearchOptions option \<Rightarrow> js_error + SearchResult list"
  vectorSearcher :: "jsstring \<Rightarrow> VectorSearchOptions option \<Rightarrow> js_error + VectorSearchResult list"
  fallbackStrategy :: FallbackStrategy

definition DEFAULT_LIMIT :: int where
  "DEFAULT_LIMIT = 10"

definition DEFAULT_CANDIDATE_LIMIT :: int where
  "DEFAULT_CANDIDATE_LIMIT = 20"

definition DEFAULT_RRF_K :: real where
  "DEFAULT_RRF_K = 60"

definition createSnippet :: "jsstring \<Rightarrow> jsstring" where
  "createSnippet c = (if length c \<le> 200 then c else take 200 c @ ascii ''...'')"

text \<open>
  A JavaScript \<open>Map\<close> keeps its keys in the order of their first insertion: \<open>map_set\<close>
  replaces the value of a key that is present where it stands and appends a new key.
\<close>

fun map_set :: "'k \<Rightarrow> 'v \<Rightarrow> ('k \<times> 'v) list \<Rightarrow> ('k \<times> 'v) list" where
  "map_set k v [] = [(k, v)]"
| "map_set k v ((k', v') # m) = (if k' = k then (k, v) # m else (k', v') # map_set k v m)"

text \<open>The bodies of the two \<open>forEach\<close> loops of \<open>rrfFusion\<close>, on \<open>scoreMap\<close>.\<close>

definition bm25Step :: "real \<Rightarrow> (string \<times> fused_entry) list \<Rightarrow> nat \<times> SearchResult
    \<Rightarrow> (string \<times> fused_entry) list" where
  "bm25Step k scoreMap ir =
     (case ir of (index, result) \<Rightarrow>
        let rank = index + 1;
            rrfContribution = 1 / (k + real rank)
        in map_set (fts_hash result)
             \<lparr>hash = fts_hash result, title = fts_title result, content = fts_content result,
              path = fts_path result, rrfScore = rrfContribution,
              bm25Score = Some (fts_score result), similarity = None,
              bm25Rank = Some rank, vectorRank = None,
              snippet = (if fts_snippet result \<noteq> [] then fts_snippet result
                         else createSnippet (fts_content result))\<rparr>
             scoreMap)"

definition vectorStep :: "real \<Rightarrow> (string \<times> fused_entry) list \<Rightarrow> nat \<times> VectorSearchResult
    \<Rightarrow> (string \<times> fused_entry) list" where
  "vectorStep k scoreMap ir =
     (case ir of (index, result) \<Rightarrow>
        let rank = index + 1;
            rrfContribution = 1 / (k + real rank)
        in (case map_of scoreMap (vec_hash result) of
              Some existing \<Rightarrow>
                map_set (vec_hash result)
                  (existing\<lparr>rrfScore := rrfScore existing + rrfContribution,
                            similarity := Some (vec_similarity result),
                            vectorRank := Some rank\<rparr>)
                  scoreMap
            | None \<Rightarrow>
                map_set (vec_hash result)
                  \<lparr>hash = vec_hash result, title = vec_title result, content = vec_content result,
                   path = vec_path result, rrfScore = rrfContribution,
                   bm25Score = None, similarity = Some (vec_similarity result),
                   bm25Rank = None, vectorRank = Some rank,
                   snippet = createSnippet (vec_content result)\<rparr>
                  scoreMap))"

text \<open>
  \<open>rrfFusion\<close>; \<open>accumulate\<close> is \<open>scoreMap\<close> after the two loops.
  \<open>Array.prototype.sort\<close> is stable, and so is \<open>sort_key\<close>; the comparator
  \<open>b.rrfScore - a.rrfScore\<close> orders by descending score. \<open>x || 1\<close> is \<open>1\<close> when \<open>x\<close> is
  \<open>undefined\<close> or \<open>0\<close>. The scores are exact reals, where the program has the double
  nearest to each quotient, sum and difference; which documents are returned, their ranks
  and the fields they carry do not depend on the rounding.
\<close>

definition accumulate :: "real \<Rightarrow> SearchResult list \<Rightarrow> VectorSearchResult list
    \<Rightarrow> (string \<times> fused_entry) list" where
  "accumulate k bm25Results vectorResults =
     foldl (vectorStep k) (foldl (bm25Step k) [] (enumerate 0 bm25Results))
       (enumerate 0 vectorResults)"

definition rrfFusion :: "SearchResult list \<Rightarrow> VectorSearchResult list \<Rightarrow> real
    \<Rightarrow> HybridSearchResult list" where
  "rrfFusion bm25Results vectorResults k =
     (let scoreMap = accumulate k bm25Results vectorResults;
          fusedResults = sort_key (\<lambda>e. - rrfScore e) (map snd scoreMap);
          maxScore = (case fusedResults of
                        [] \<Rightarrow> 1
                      | e # _ \<Rightarrow> if rrfScore e = 0 then 1 else rrfScore e);
          minScore = (if fusedResults = [] then 0 else rrfScore (last fusedResults));
          scoreRange = (if maxScore - minScore = 0 then 1 else maxScore - minScore)
      in map (\<lambda>(index, result).
                \<lparr>hash = hash result, title = title result, content = content result,
                 path = path result, rrfScore = rrfScore result, bm25Score = bm25Score result,
                 similarity = similarity result, bm25Rank = bm25Rank result,
                 vectorRank = vectorRank result, snippet = snippet result,
                 normalizedScore = ((rrfScore result - minScore) / scoreRange) * 100,
                 rank = index + 1\<rparr>)
           (enumerate 0 fusedResults))"

text \<open>
  \<open>executeBM25Search\<close> and \<open>executeVectorSearch\<close>: \<open>Inr None\<close> is the \<open>null\<close> of a branch
  that failed under the graceful strategy.
\<close>

definition executeBM25Search :: "HybridSearcher \<Rightarrow> jsstring \<Rightarrow> SearchOptions
    \<Rightarrow> js_error + SearchResult list option" where
  "executeBM25Search hs query options =
     (case ftsSearcher hs query (Some options) of
        Inr results \<Rightarrow> Inr (Some results)
      | Inl error \<Rightarrow> if fallbackStrategy hs = Fail then Inl error else Inr None)"

definition executeVectorSearch :: "HybridSearcher \<Rightarrow> jsstring \<Rightarrow> VectorSearchOptions
    \<Rightarrow> js_error + VectorSearchResult list option" where
  "executeVectorSearch hs query options =
     (case vectorSearcher hs query (Some options) of
        Inr results \<Rightarrow> Inr (Some results)
      | Inl error \<Rightarrow> if fallbackStrategy hs = Fail then Inl error else Inr None)"

text \<open>\<open>xs.slice(0, limit)\<close>: a negative end counts from the end of the array.\<close>

definition slice0 :: "'a list \<Rightarrow> int \<Rightarrow> 'a list" where
  "slice0 xs n = take (if n < 0 then nat (int (length xs) + n) else nat n) xs"

text \<open>
  \<open>HybridSearcher.search\<close>. \<open>or_default\<close> is a default of a destructured or omitted
  parameter; \<open>HybridSearcher_new\<close> is the constructor, whose strategy defaults to graceful. \<open>lexicalBranch\<close>
  and \<open>vectorBranch\<close> are the two promises pushed to \<open>searchPromises\<close>: a disabled branch
  resolves to \<open>null\<close> without calling its searcher; \<open>thresholdAndLimit\<close> is the
  \<open>minScore\<close> filter and the final \<open>slice\<close>. Both branches are started before either is
  awaited. The lexical searcher never suspends, so when both reject under the strict
  strategy, \<open>Promise.all\<close> rejects with the error of the lexical branch.
\<close>

definition or_default :: "'a \<Rightarrow> 'a option \<Rightarrow> 'a" where
  "or_default d x = (case x of None \<Rightarrow> d | Some v \<Rightarrow> v)"

definition HybridSearcher_new ::
  "(jsstring \<Rightarrow> SearchOptions option \<Rightarrow> js_error + SearchResult list)
   \<Rightarrow> (jsstring \<Rightarrow> VectorSearchOptions option \<Rightarrow> js_error + VectorSearchResult list)
   \<Rightarrow> FallbackStrategy option \<Rightarrow> HybridSearcher" where
  "HybridSearcher_new fts vecs strategy =
     \<lparr>ftsSearcher = fts, vectorSearcher = vecs, fallbackStrategy = or_default Graceful strategy\<rparr>"

definition lexicalOptions :: "HybridSearchOptions \<Rightarrow> SearchOptions" where
  "lexicalOptions options =
     \<lparr>so_collectionFilter = collectionFilter options, so_minScore = None,
      so_limit = Some (or_default DEFAULT_CANDIDATE_LIMIT (candidateLimit options))\<rparr>"

definition vectorOptions :: "HybridSearchOptions \<Rightarrow> VectorSearchOptions" where
  "vectorOptions options =
     \<lparr>vo_collectionFilter = collectionFilter options,
      vo_limit = Some (or_default DEFAULT_CANDIDATE_LIMIT (candidateLimit options)),
      vo_minSimilarity = None\<rparr>"

definition lexicalBranch :: "HybridSearcher \<Rightarrow> jsstring \<Rightarrow> HybridSearchOptions
    \<Rightarrow> js_error + SearchResult list option" where
  "lexicalBranch hs query options =
     (if or_default True (enableBM25 options)
      then executeBM25Search hs query (lexicalOptions options)
      else Inr None)"

definition vectorBranch :: "HybridSearcher \<Rightarrow> jsstring \<Rightarrow> HybridSearchOptions
    \<Rightarrow> js_error + VectorSearchResult list option" where
  "vectorBranch hs query options =
     (if or_default True (enableVector options)
      then executeVectorSearch hs query (vectorOptions options)
      else Inr None)"

definition thresholdAndLimit :: "HybridSearchOptions \<Rightarrow> HybridSearchResult list
    \<Rightarrow> HybridSearchResult list" where
  "thresholdAndLimit options hybridResults =
     (let filteredResults =
            (case minScore options of
               None \<Rightarrow> hybridResults
             | Some m \<Rightarrow> filter (\<lambda>r. normalizedScore r \<ge> m) hybridResults)
      in slice0 filteredResults (or_default DEFAULT_LIMIT (limit options)))"

definition HybridSearcher_search :: "HybridSearcher \<Rightarrow> jsstring \<Rightarrow> HybridSearchOptions
    \<Rightarrow> js_error + HybridSearchResult list" where
  "HybridSearcher_search hs query options =
     (if \<not> or_default True (enableBM25 options) \<and> \<not> or_default True (enableVector options)
      then Inl (HybridSearchError ''At least one search method must be enabled'' INVALID_OPTIONS)
      else if or_default DEFAULT_RRF_K (rrfK options) \<le> 0
      then Inl (HybridSearchError ''RRF constant k must be positive'' INVALID_OPTIONS)
      else
        (case lexicalBranch hs query options of
           Inl error \<Rightarrow> Inl error
         | Inr bm25Results \<Rightarrow>
             (case vectorBranch hs query options of
                Inl error \<Rightarrow> Inl error
              | Inr vectorResults \<Rightarrow>
                  let hasBM25 = (case bm25Results of None \<Rightarrow> False | Some rs \<Rightarrow> length rs > 0);
                      hasVector = (case vectorResults of None \<Rightarrow> False | Some rs \<Rightarrow> length rs > 0)
                  in if \<not> hasBM25 \<and> \<not> hasVector then
                       (if fallbackStrategy hs = Fail
                        then Inl (HybridSearchError
                               ''Both BM25 and vector searches returned no results'' NO_RESULTS)
                        else Inr [])
                     else
                       let hybridResults =
                             rrfFusion (or_default [] bm25Results) (or_default [] vectorResults)
                               (or_default DEFAULT_RRF_K (rrfK options))
                       in Inr (thresholdAndLimit options hybridResults))))"

section \<open>Notions used in the statements\<close>

text \<open>
  What the catch block of the lexical searcher tests: the thrown value is an \<open>Error\<close> whose
  message contains \<open>fts5\<close>.
\<close>

definition mentions_fts5 :: "js_error \<Rightarrow> bool" where
  "mentions_fts5 err = (case error_message err of None \<Rightarrow> False | Some m \<Rightarrow> str_includes m ''fts5'')"

text \<open>
  The report of the database that the full-text index \<open>documents_fts\<close> does not exist, in
  the wording by which the program recognises a missing table elsewhere
  (\<open>no such table: vectors_vec\<close> in the vector searcher, \<open>no such table: schema_migrations\<close>
  in the migration code).
\<close>

definition reports_missing_index :: "js_error \<Rightarrow> bool" where
  "reports_missing_index err =
     (case err of Error m \<Rightarrow> str_includes m ''no such table: documents_fts'' | _ \<Rightarrow> False)"

text \<open>A fused entry that carries the fields of one search method only.\<close>

definition lexical_only :: "'a fused_entry_scheme \<Rightarrow> bool" where
  "lexical_only e \<longleftrightarrow> bm25Score e \<noteq> None \<and> bm25Rank e \<noteq> None \<and> similarity e = None \<and> vectorRank e = None"

definition vector_only :: "'a fused_entry_scheme \<Rightarrow> bool" where
  "vector_only e \<longleftrightarrow> bm25Score e = None \<and> bm25Rank e = None \<and> similarity e \<noteq> None \<and> vectorRank e \<noteq> None"

text \<open>
  \<open>fused\<close> is the sorted array \<open>fusedResults\<close> and \<open>display_range\<close> the \<open>scoreRange\<close> of a
  non-empty one with a non-zero best score.
\<close>

definition fused :: "real \<Rightarrow> SearchResult list \<Rightarrow> VectorSearchResult list \<Rightarrow> fused_entry list" where
  "fused k b v = sort_key (\<lambda>e. - rrfScore e) (map snd (accumulate k b v))"


text \<open>
  The 1-based position of the first occurrence of a document in a list of hashes, and the
  contribution \<open>1 / (k + rank)\<close> of a list to the score of a document, 0 for a list in
  which it does not occur.
\<close>

fun position_of :: "'a \<Rightarrow> 'a list \<Rightarrow> nat option" where
  "position_of x [] = None"
| "position_of x (y # ys) = (if x = y then Some 1 else map_option Suc (position_of x ys))"

fun contribution :: "real \<Rightarrow> nat option \<Rightarrow> real" where
  "contribution k None = 0"
| "contribution k (Some r) = 1 / (k + real r)"

text \<open>
  The invariant of the two loops of \<open>rrfFusion\<close> on lists without repeated hashes: after
  the lexical hashes \<open>hb\<close> and the vector hashes \<open>hv\<close>, the map has one entry for each of
  them, with the ranks and the score that the positions give.
\<close>

definition fusion_inv :: "real \<Rightarrow> string list \<Rightarrow> string list \<Rightarrow> (string \<times> fused_entry) list \<Rightarrow> bool" where
  "fusion_inv k hb hv m \<longleftrightarrow>
     distinct (map fst m) \<and> set (map fst m) = set hb \<union> set hv
     \<and> (\<forall>h e. map_of m h = Some e \<longrightarrow>
           hash e = h
           \<and> bm25Rank e = position_of h hb
           \<and> vectorRank e = position_of h hv
           \<and> rrfScore e = contribution k (bm25Rank e) + contribution k (vectorRank e))"

text \<open>
  A fused entry carries the lexical fields of a candidate list when some candidate of the
  list has its hash, its \<open>bm25Rank\<close> is the 1-based position of that candidate and its
  \<open>bm25Score\<close> the score of that candidate; likewise for the vector fields.
\<close>

definition carries_lexical :: "SearchResult list \<Rightarrow> 'a fused_entry_scheme \<Rightarrow> bool" where
  "carries_lexical bs e \<longleftrightarrow>
     list_ex (\<lambda>(i, b). fts_hash b = hash e \<and> bm25Rank e = Some (i + 1)
                        \<and> bm25Score e = Some (fts_score b))
       (enumerate 0 bs)"

definition carries_vector :: "VectorSearchResult list \<Rightarrow> 'a fused_entry_scheme \<Rightarrow> bool" where
  "carries_vector vs e \<longleftrightarrow>
     list_ex (\<lambda>(i, v). vec_hash v = hash e \<and> vectorRank e = Some (i + 1)
                        \<and> similarity e = Some (vec_similarity v))
       (enumerate 0 vs)"

text \<open>
  What holds of \<open>scoreMap\<close> during the two loops of \<open>rrfFusion\<close>, for any candidate lists:
  its keys are the hashes seen so far, each once, and the entry of a hash carries the fields
  of each list in which the hash occurs.
\<close>

definition fields_inv :: "SearchResult list \<Rightarrow> VectorSearchResult list
    \<Rightarrow> (string \<times> fused_entry) list \<Rightarrow> bool" where
  "fields_inv bs vs m \<longleftrightarrow>
     distinct (map fst m) \<and> set (map fst m) = set (map fts_hash bs) \<union> set (map vec_hash vs)
     \<and> (\<forall>h e. map_of m h = Some e \<longrightarrow>
           hash e = h
           \<and> (h \<in> set (map fts_hash bs) \<longrightarrow> carries_lexical bs e)
           \<and> (h \<in> set (map vec_hash vs) \<longrightarrow> carries_vector vs e))"

text \<open>
  The estimate in the words of the specification: \<open>words_non_cjk\<close> counts the word-like runs
  that hold no CJK character, and \<open>estimate_as_specified\<close> is
  \<open>ceil(words_non_cjk * 1.3) + cjk_char_count + ceil(punctuation_count * 0.5)\<close>.
\<close>

definition words_non_cjk :: "jsstring \<Rightarrow> nat" where
  "words_non_cjk t = length (filter (\<lambda>run. \<not> list_ex isCJK run) (runs_of isWordLike t))"

definition estimate_as_specified :: "jsstring \<Rightarrow> int" where
  "estimate_as_specified t =
     \<lceil>real (words_non_cjk t) * (13 / 10)\<rceil> + int (length (filter isCJK t))
     + \<lceil>real (length (filter isPunctuation t)) * (1 / 2)\<rceil>"

section \<open>Concrete inputs\<close>

text \<open>An embedding service that is down.\<close>

definition offline :: OllamaEmbedder where
  "offline =
     \<lparr>isAvailable = False, getInstallInstructions = ''ollama pull nomic-embed-text'',
      generateEmbedding = (\<lambda>t. Inl (EmbeddingError ''Embedding model not available''))\<rparr>"

text \<open>A constructed lexical searcher.\<close>

definition built :: FTSSearcher where "built = \<lparr>initialized = True\<rparr>"

text \<open>
  Candidates: a lexical result and a vector result (at a distance) for a document hash,
  two lexical lists, a vector list, and two vector lists that hold two chunks of one
  document: one after the other, and with another document between them.
\<close>

definition lex :: "string \<Rightarrow> SearchResult" where
  "lex h = \<lparr>fts_hash = h, fts_title = h, fts_content = ascii ''Cats are mammals.'',
            fts_path = h @ ''.md'', fts_score = 50, fts_snippet = [], fts_rank = 1\<rparr>"

definition vec :: "string \<Rightarrow> real \<Rightarrow> VectorSearchResult" where
  "vec h d = \<lparr>vec_hash = h, vec_title = h, vec_content = ascii ''Cats are mammals.'',
            vec_path = h @ ''.md'', vec_similarity = distanceToSimilarity d, vec_distance = d,
            vec_rank = 1\<rparr>"

definition lexical_abc :: "SearchResult list" where "lexical_abc = [lex ''a'', lex ''b'', lex ''c'']"

definition lexical_abf :: "SearchResult list" where "lexical_abf = [lex ''a'', lex ''b'', lex ''f'']"

definition vector_dec :: "VectorSearchResult list" where
  "vector_dec = [vec ''d'' (1/8), vec ''e'' (1/4), vec ''c'' (1/2)]"

definition vector_aa :: "VectorSearchResult list" where
  "vector_aa = [vec ''a'' (1/8), vec ''a'' (1/4)]"

definition vector_ded :: "VectorSearchResult list" where
  "vector_ded = [vec ''d'' (1/8), vec ''e'' (1/4), vec ''d'' (1/2)]"

text \<open>
  The default options of a hybrid search, and three hybrid searchers: one whose lexical
  branch throws while its vector branch finds three documents, one whose vector branch
  throws while its lexical branch finds three documents, and one whose branches both find
  nothing.
\<close>

definition default_options :: HybridSearchOptions where
  "default_options =
     \<lparr>collectionFilter = None, limit = None, minScore = None, rrfK = None,
      candidateLimit = None, enableBM25 = None, enableVector = None\<rparr>"

definition lexical_down :: "FallbackStrategy option \<Rightarrow> HybridSearcher" where
  "lexical_down strategy =
     HybridSearcher_new
       (\<lambda>q opts. Inl (SearchError ''Search query failed: disk I/O error'' QUERY_ERROR))
       (\<lambda>q opts. Inr vector_dec) strategy"

definition vector_down :: "FallbackStrategy option \<Rightarrow> HybridSearcher" where
  "vector_down strategy =
     HybridSearcher_new (\<lambda>q opts. Inr lexical_abc)
       (\<lambda>q opts. Inl (VectorSearchError ''Search failed: fetch failed'' QUERY_ERROR)) strategy"

definition nothing_found :: "FallbackStrategy option \<Rightarrow> HybridSearcher" where
  "nothing_found strategy = HybridSearcher_new (\<lambda>q opts. Inr []) (\<lambda>q opts. Inr []) strategy"

text \<open>
  Texts for the token estimate: \<open>hello\<close> followed by a run of four CJK characters
  (U+4F60 U+597D U+4E16 U+754C).
\<close>

definition hello_world_cjk :: jsstring where
  "hello_world_cjk = ascii ''hello '' @ [0x4F60, 0x597D, 0x4E16, 0x754C]"

text \<open>
  A document of eleven sentences, each of which starts with the abbreviation \<open>Dr.\<close> followed
  by a line feed: nine times \<open>Dr.\<close>, line feed, \<open>A !\<close> and twice \<open>Dr.\<close>, line feed, \<open>A.\<close>,
  separated by single spaces; and a chunker with \<open>maxTokens = 7\<close> and the default overlap.
\<close>

definition dr_a_bang :: jsstring where "dr_a_bang = ascii ''Dr.'' @ [10] @ ascii ''A !''"

definition dr_a_stop :: jsstring where "dr_a_stop = ascii ''Dr.'' @ [10] @ ascii ''A.''"

definition abbreviations_doc :: jsstring where
  "abbreviations_doc = concat (replicate 9 (dr_a_bang @ [32])) @ dr_a_stop @ [32] @ dr_a_stop"

definition small_chunker :: chunker where
  "small_chunker = DocumentChunker (Some \<lparr>opt_maxTokens = Some 7, opt_overlapPercent = None\<rparr>)"

section \<open>Properties of the string primitives\<close>

lemma trim_blank: "(\<forall>c\<in>set s. isSpace c) \<Longrightarrow> trim s = []"
proof -
  assume "\<forall>c\<in>set s. isSpace c"
  then have d: "dropWhile isSpace s = []" by (simp only: dropWhile_eq_Nil_conv)
  show ?thesis unfolding trim_def d by simp
qed

lemma trim_empty_iff: "trim s = [] \<longleftrightarrow> (\<forall>c\<in>set s. isSpace c)"
proof
  assume "trim s = []"
  then have "dropWhile isSpace (rev (dropWhile isSpace s)) = []" by (simp add: trim_def)
  then have "\<forall>c\<in>set (dropWhile isSpace s). isSpace c"
    by (simp only: dropWhile_eq_Nil_conv set_rev)
  then have "dropWhile isSpace s = []"
    by (metis hd_dropWhile list.set_sel(1))
  then show "\<forall>c\<in>set s. isSpace c" by (simp only: dropWhile_eq_Nil_conv)
qed (rule trim_blank)

section \<open>Rounding\<close>

text \<open>
  Rounding to an integer is off by at most one half and keeps integer bounds; the binary
  exponent brackets the magnitude; so \<open>fl\<close> is off by at most half a quantum, keeps the
  sign and keeps bounds that are powers of two.
\<close>

lemma round_half_even_error: "\<bar>of_int (round_half_even y) - y\<bar> \<le> 1 / 2"
proof -
  have "of_int \<lfloor>y\<rfloor> \<le> y" "y < of_int \<lfloor>y\<rfloor> + 1" by linarith+
  then show ?thesis by (auto simp: round_half_even_def Let_def)
qed

lemma round_half_even_ge: "of_int k \<le> y \<Longrightarrow> k \<le> round_half_even y"
proof -
  assume "of_int k \<le> y"
  then have "k \<le> \<lfloor>y\<rfloor>" by (simp add: le_floor_iff)
  then show ?thesis by (auto simp: round_half_even_def Let_def)
qed

lemma round_half_even_le: "y \<le> of_int k \<Longrightarrow> round_half_even y \<le> k"
proof -
  assume a: "y \<le> of_int k"
  then have f: "\<lfloor>y\<rfloor> \<le> k" by (simp add: floor_le_iff)
  have "\<lfloor>y\<rfloor> < k" if "y - of_int \<lfloor>y\<rfloor> \<ge> 1 / 2"
  proof -
    from that have "of_int \<lfloor>y\<rfloor> < y" by linarith
    with a have "of_int \<lfloor>y\<rfloor> < (of_int k :: real)" by linarith
    then show ?thesis by simp
  qed
  with f show ?thesis by (auto simp: round_half_even_def Let_def)
qed

lemma pw_nonneg: "0 \<le> n \<Longrightarrow> (2::real) powi n = 2 ^ nat n"
  by (simp add: power_int_def)

lemma pw_pos: "0 < (2::real) powi n"
  by (simp add: zero_less_power_int)

lemma pw_mono: "m \<le> n \<Longrightarrow> (2::real) powi m \<le> 2 powi n"
  by (rule power_int_increasing) simp_all

lemma pw_strict_mono: "m < n \<Longrightarrow> (2::real) powi m < 2 powi n"
  by (rule power_int_strict_increasing) simp_all

lemma pw_add: "(2::real) powi (m + n) = 2 powi m * 2 powi n"
  by (rule power_int_add) simp

lemma pw_diff: "(2::real) powi (m - n) = 2 powi m / 2 powi n"
  by (rule power_int_diff) simp

lemma pw_half: "(2::real) powi n / 2 = 2 powi (n - 1)"
  by (simp add: pw_diff)

lemma binary_exponent_bounds:
  assumes "x \<noteq> 0"
  shows "2 powi binary_exponent x \<le> \<bar>x\<bar> \<and> \<bar>x\<bar> < 2 powi (binary_exponent x + 1)"
proof (cases "1 \<le> \<bar>x\<bar>")
  case True
  let ?m = "\<lfloor>\<bar>x\<bar>\<rfloor>"
  have m: "0 < ?m" using True by linarith
  from bitlen_bounds[OF m] have b: "2 ^ nat (bitlen ?m - 1) \<le> ?m" "?m < 2 ^ nat (bitlen ?m)" by simp_all
  have b1: "1 \<le> bitlen ?m" using m by (simp add: bitlen_ge_iff_power)
  have e: "binary_exponent x = bitlen ?m - 1" using True by (simp add: binary_exponent_def)
  have "(2::real) powi (bitlen ?m - 1) = of_int (2 ^ nat (bitlen ?m - 1))"
    using b1 by (simp add: pw_nonneg)
  also have "\<dots> \<le> of_int ?m" using b(1) by (simp only: of_int_le_iff)
  also have "\<dots> \<le> \<bar>x\<bar>" by linarith
  finally have lo: "2 powi (bitlen ?m - 1) \<le> \<bar>x\<bar>" .
  from b(2) have "?m + 1 \<le> 2 ^ nat (bitlen ?m)" by linarith
  then have "(of_int (?m + 1) :: real) \<le> of_int (2 ^ nat (bitlen ?m))" by (simp only: of_int_le_iff)
  moreover have "\<bar>x\<bar> < of_int (?m + 1)" by linarith
  ultimately have "\<bar>x\<bar> < of_int (2 ^ nat (bitlen ?m))" by linarith
  also have "\<dots> = 2 powi (bitlen ?m)" using b1 by (simp add: pw_nonneg)
  finally have hi: "\<bar>x\<bar> < 2 powi (bitlen ?m - 1 + 1)" by simp
  show ?thesis unfolding e using lo hi by blast
next
  case False
  define y where "y = 1 / \<bar>x\<bar>"
  define c where "c = \<lceil>y\<rceil> - 1"
  define B where "B = bitlen c"
  from False assms have x: "0 < \<bar>x\<bar>" "\<bar>x\<bar> < 1" by simp_all
  then have y: "1 < y" by (simp add: y_def)
  then have c: "0 < c" unfolding c_def by linarith
  have cy: "of_int c < y" "y \<le> of_int c + 1" unfolding c_def by linarith+
  from bitlen_bounds[OF c] have b: "2 ^ nat (B - 1) \<le> c" "c < 2 ^ nat B" by (simp_all add: B_def)
  have b1: "1 \<le> B" using c by (simp add: B_def bitlen_ge_iff_power)
  have e: "binary_exponent x = - B" using False by (simp add: binary_exponent_def B_def c_def y_def)
  from b(2) have "c + 1 \<le> 2 ^ nat B" by linarith
  then have "(of_int (c + 1) :: real) \<le> of_int (2 ^ nat B)" by (simp only: of_int_le_iff)
  moreover have "(of_int (c + 1) :: real) = of_int c + 1" by simp
  ultimately have "y \<le> of_int (2 ^ nat B)" using cy(2) by linarith
  also have "\<dots> = 2 powi B" using b1 by (simp add: pw_nonneg)
  finally have "1 / \<bar>x\<bar> \<le> 2 powi B" by (simp add: y_def)
  then have "1 \<le> 2 powi B * \<bar>x\<bar>" using x(1) by (simp add: field_simps)
  then have "1 / 2 powi B \<le> \<bar>x\<bar>" using pw_pos[of B] by (simp add: field_simps)
  then have lo: "2 powi (- B) \<le> \<bar>x\<bar>" by (simp only: power_int_minus inverse_eq_divide)
  have "(2::real) powi (B - 1) = of_int (2 ^ nat (B - 1))"
    using b1 by (simp add: pw_nonneg)
  also have "\<dots> \<le> of_int c" using b(1) by (simp only: of_int_le_iff)
  also have "\<dots> < y" by (rule cy(1))
  finally have "2 powi (B - 1) < 1 / \<bar>x\<bar>" by (simp add: y_def)
  then have "2 powi (B - 1) * \<bar>x\<bar> < 1" using x(1) by (simp add: field_simps)
  then have "\<bar>x\<bar> < 1 / 2 powi (B - 1)" using pw_pos[of "B - 1"] by (simp add: field_simps)
  also have "\<dots> = 2 powi (- (B - 1))" by (simp only: power_int_minus inverse_eq_divide)
  finally have hi: "\<bar>x\<bar> < 2 powi (- B + 1)" by simp
  show ?thesis unfolding e using lo hi by blast
qed

lemma binary_exponent_less: "x \<noteq> 0 \<Longrightarrow> \<bar>x\<bar> < 2 powi n \<Longrightarrow> binary_exponent x < n"
proof (rule ccontr)
  assume x: "x \<noteq> 0" and a: "\<bar>x\<bar> < 2 powi n" and "\<not> binary_exponent x < n"
  then have "(2::real) powi n \<le> 2 powi binary_exponent x" by (intro pw_mono) simp
  with binary_exponent_bounds[OF x] a show False by linarith
qed

lemma binary_exponent_ge: "2 powi n \<le> \<bar>x\<bar> \<Longrightarrow> n \<le> binary_exponent x"
proof (rule ccontr)
  assume a: "2 powi n \<le> \<bar>x\<bar>" and "\<not> n \<le> binary_exponent x"
  then have "(2::real) powi (binary_exponent x + 1) \<le> 2 powi n" by (intro pw_mono) simp
  moreover have "x \<noteq> 0"
  proof
    assume "x = 0"
    with a have "(2::real) powi n \<le> 0" by simp
    with pw_pos[of n] show False by linarith
  qed
  ultimately show False using binary_exponent_bounds[of x] a by linarith
qed

lemma fl_error_quantum: "\<bar>fl x - x\<bar> \<le> 2 powi (quantum x - 1)"
proof -
  let ?p = "(2::real) powi quantum x"
  have p: "0 < ?p" by (rule pw_pos)
  have "fl x - x = (of_int (round_half_even (x / ?p)) - x / ?p) * ?p"
    using p by (simp add: fl_def field_simps)
  then have "\<bar>fl x - x\<bar> = \<bar>of_int (round_half_even (x / ?p)) - x / ?p\<bar> * ?p"
    using p by (simp add: abs_mult)
  also have "\<dots> \<le> 1 / 2 * ?p"
    using round_half_even_error[of "x / ?p"] p by (intro mult_right_mono) simp_all
  also have "\<dots> = 2 powi (quantum x - 1)" by (simp add: pw_diff)
  finally show ?thesis .
qed

lemma fl_zero: "fl 0 = 0"
  by (simp add: fl_def round_half_even_def)

lemma fl_abs_error:
  assumes "\<bar>x\<bar> < 2 powi n" and "- 1021 \<le> n"
  shows "\<bar>fl x - x\<bar> \<le> 2 powi (n - 54)"
proof (cases "x = 0")
  case True
  then show ?thesis using pw_pos[of "n - 54"] by (simp add: fl_zero)
next
  case False
  from binary_exponent_less[OF False assms(1)] assms(2) have "quantum x - 1 \<le> n - 54"
    by (simp add: quantum_def)
  then have "(2::real) powi (quantum x - 1) \<le> 2 powi (n - 54)" by (rule pw_mono)
  with fl_error_quantum[of x] show ?thesis by linarith
qed

lemma fl_rel_error:
  assumes "2 powi (- 1022) \<le> \<bar>x\<bar>"
  shows "\<bar>fl x - x\<bar> \<le> 2 powi (- 53) * \<bar>x\<bar>"
proof -
  from binary_exponent_ge[OF assms] have q: "quantum x = binary_exponent x - 52"
    by (simp add: quantum_def)
  have x: "x \<noteq> 0"
  proof
    assume "x = 0"
    with assms have "(2::real) powi (- 1022) \<le> 0" by simp
    with pw_pos[of "- 1022"] show False by linarith
  qed
  have "\<bar>fl x - x\<bar> \<le> 2 powi (binary_exponent x - 53)"
    using fl_error_quantum[of x] by (simp add: q)
  also have "\<dots> = 2 powi (- 53) * 2 powi binary_exponent x"
    using pw_add[of "- 53" "binary_exponent x"] by (simp add: algebra_simps)
  also have "\<dots> \<le> 2 powi (- 53) * \<bar>x\<bar>"
    using binary_exponent_bounds[OF x] pw_pos[of "- 53"] by (intro mult_left_mono) simp_all
  finally show ?thesis .
qed

lemma fl_nonneg: "0 \<le> x \<Longrightarrow> 0 \<le> fl x"
proof -
  assume "0 \<le> x"
  then have "of_int 0 \<le> x / 2 powi quantum x" using pw_pos[of "quantum x"] by simp
  then have "0 \<le> round_half_even (x / 2 powi quantum x)" by (rule round_half_even_ge)
  then show ?thesis using pw_pos[of "quantum x"] by (simp add: fl_def)
qed

lemma fl_nonpos: "x \<le> 0 \<Longrightarrow> fl x \<le> 0"
proof -
  assume "x \<le> 0"
  then have "x / 2 powi quantum x \<le> of_int 0"
    using pw_pos[of "quantum x"] by (simp add: divide_nonpos_pos)
  then have "round_half_even (x / 2 powi quantum x) \<le> 0" by (rule round_half_even_le)
  then show ?thesis using pw_pos[of "quantum x"] by (simp add: fl_def mult_le_0_iff)
qed

lemma fl_le_pow:
  assumes "x \<le> 2 powi n" and "- 1074 \<le> n"
  shows "fl x \<le> 2 powi n"
proof (cases "quantum x \<le> n")
  case True
  let ?g = "quantum x"
  let ?k = "2 ^ nat (n - ?g) :: int"
  have k: "(of_int ?k :: real) = 2 powi (n - ?g)" using True by (simp add: pw_nonneg)
  have "x / 2 powi ?g \<le> 2 powi n / 2 powi ?g"
    using assms(1) pw_pos[of ?g] by (simp add: divide_right_mono)
  also have "\<dots> = of_int ?k" unfolding k by (simp add: pw_diff)
  finally have "round_half_even (x / 2 powi ?g) \<le> ?k" by (rule round_half_even_le)
  then have "(of_int (round_half_even (x / 2 powi ?g)) :: real) \<le> of_int ?k" by (simp only: of_int_le_iff)
  then have "fl x \<le> of_int ?k * 2 powi ?g"
    unfolding fl_def using pw_pos[of ?g] by (intro mult_right_mono) simp_all
  also have "\<dots> = 2 powi n" unfolding k using pw_add[of "n - ?g" ?g] by simp
  finally show ?thesis .
next
  case False
  with assms(2) have "n < binary_exponent x - 52" by (simp add: quantum_def)
  then have "(2::real) powi n < 2 powi binary_exponent x" by (intro pw_strict_mono) simp
  moreover have "x \<noteq> 0 \<Longrightarrow> 2 powi binary_exponent x \<le> \<bar>x\<bar>" using binary_exponent_bounds by blast
  ultimately have "x \<le> 0" using assms(1) by (cases "x = 0") auto
  then have "fl x \<le> 0" by (rule fl_nonpos)
  then show ?thesis using pw_pos[of n] by linarith
qed

lemma fl_ge_pow:
  assumes "2 powi n \<le> x" and "- 1074 \<le> n"
  shows "2 powi n \<le> fl x"
proof (cases "quantum x \<le> n")
  case True
  let ?g = "quantum x"
  let ?k = "2 ^ nat (n - ?g) :: int"
  have k: "(of_int ?k :: real) = 2 powi (n - ?g)" using True by (simp add: pw_nonneg)
  have "(of_int ?k :: real) = 2 powi n / 2 powi ?g" unfolding k by (simp add: pw_diff)
  also have "\<dots> \<le> x / 2 powi ?g"
    using assms(1) pw_pos[of ?g] by (simp add: divide_right_mono)
  finally have "?k \<le> round_half_even (x / 2 powi ?g)" by (rule round_half_even_ge)
  then have "(of_int ?k :: real) \<le> of_int (round_half_even (x / 2 powi ?g))" by (simp only: of_int_le_iff)
  then have "of_int ?k * 2 powi ?g \<le> fl x"
    unfolding fl_def using pw_pos[of ?g] by (intro mult_right_mono) simp_all
  moreover have "(of_int ?k :: real) * 2 powi ?g = 2 powi n"
    unfolding k using pw_add[of "n - ?g" ?g] by simp
  ultimately show ?thesis by simp
next
  case False
  let ?e = "binary_exponent x"
  from False assms(2) have q: "quantum x = ?e - 52" and n: "n < ?e - 52" by (simp_all add: quantum_def)
  have x: "0 < x" using assms(1) pw_pos[of n] by linarith
  then have lo: "2 powi ?e \<le> x" using binary_exponent_bounds[of x] by simp
  have "fl x \<ge> x - 2 powi (?e - 53)" using fl_error_quantum[of x] by (simp add: q)
  moreover have "(2::real) powi (?e - 53) \<le> 2 powi (?e - 1)" by (intro pw_mono) simp
  moreover have "(2::real) powi ?e = 2 * 2 powi (?e - 1)" using pw_add[of 1 "?e - 1"] by simp
  moreover have "(2::real) powi n \<le> 2 powi (?e - 1)" using n by (intro pw_mono) simp
  ultimately show ?thesis using lo by linarith
qed

lemma overflows_iff: "overflows x \<longleftrightarrow> 2 powi 1024 \<le> \<bar>x\<bar>"
proof
  assume "overflows x"
  then have e: "1024 \<le> binary_exponent x" by (simp add: overflows_def)
  then have "x \<noteq> 0" by (auto simp: binary_exponent_def bitlen_def floorlog_def)
  from binary_exponent_bounds[OF this] pw_mono[OF e] show "2 powi 1024 \<le> \<bar>x\<bar>" by linarith
next
  assume "2 powi 1024 \<le> \<bar>x\<bar>"
  from binary_exponent_ge[OF this] show "overflows x" by (simp add: overflows_def)
qed

lemma u53: "(2::real) powi (- 53) = 1 / 9007199254740992"
  by (simp add: power_int_minus)

lemma fl_error_le: "\<bar>fl x - x\<bar> \<le> 2 powi (- 53) * \<bar>x\<bar> + 2 powi (- 1075)"
proof (cases "2 powi (- 1022) \<le> \<bar>x\<bar>")
  case True
  from fl_rel_error[OF True] pw_pos[of "- 1075"] show ?thesis by linarith
next
  case False
  then have "\<bar>x\<bar> < 2 powi (- 1021)" using pw_mono[of "- 1022" "- 1021"] by simp
  from fl_abs_error[OF this] have "\<bar>fl x - x\<bar> \<le> 2 powi (- 1075)" by simp
  moreover have "0 \<le> 2 powi (- 53) * \<bar>x\<bar>" using pw_pos[of "- 53"] by simp
  ultimately show ?thesis by linarith
qed

lemma fl_unit_interval:
  assumes "0 \<le> x" and "x \<le> 1"
  shows "0 \<le> fl x \<and> fl x \<le> 1 \<and> \<bar>fl x - x\<bar> \<le> 1 / 9007199254740992"
proof -
  have "fl x \<le> 2 powi 0" using assms(2) by (intro fl_le_pow) simp_all
  moreover have "\<bar>x\<bar> < 2 powi 1" using assms by simp
  from fl_abs_error[OF this] have "\<bar>fl x - x\<bar> \<le> 2 powi (- 53)" by simp
  ultimately show ?thesis using fl_nonneg[OF assms(1)] by (simp add: u53)
qed

section \<open>Score conversions\<close>

text \<open>
  C4 at the raw scores \<open>-2\<close> and \<open>-1\<close>. \<open>normalizeBM25Score\<close> computes
  \<open>(1 / (1 + |raw|)) * 100\<close> and maps 0 to 100, but of the raw scores \<open>-2 < -1 \<le> 0\<close> the
  more negative one, the better match, gets \<open>33.33333333333333\<close> and the other one \<open>50\<close>:
  the better match gets the lower normalized score. Nor is the conversion strict: the
  doubles \<open>-3.0000000000000004\<close> and \<open>-3\<close> both get 25.
\<close>

theorem normalizeBM25Score_direction_evaluation:
  "normalizeBM25Score (Finite (- 2)) = 2345624805922133 / 2 ^ 46
   \<and> normalizeBM25Score (Finite (- 1)) = 50
   \<and> normalizeBM25Score (Finite (- 2)) < normalizeBM25Score (Finite (- 1))
   \<and> normalizeBM25Score (Finite 0) = 100
   \<and> normalizeBM25Score (Finite (- (6755399441055745 / 2 ^ 51))) = 25
   \<and> normalizeBM25Score (Finite (- 3)) = 25"
  by code_simp

subsection \<open>The round trips\<close>

lemma fl_scaled_error:
  assumes "0 \<le> x" and "x \<le> 1"
  shows "\<bar>fl (x * 100) - x * 100\<bar> \<le> 64 / 9007199254740992"
proof -
  have "\<bar>x * 100\<bar> < 2 powi 7" using assms by simp
  from fl_abs_error[OF this] have "\<bar>fl (x * 100) - x * 100\<bar> \<le> 2 powi (- 47)" by simp
  then show ?thesis by (simp add: power_int_minus)
qed

lemma vector_roundtrip_error:
  assumes "0 \<le> s" and "s \<le> 100"
  shows "\<bar>distanceToSimilarity (similarityToDistance s) - s\<bar> \<le> 564 / 9007199254740992"
proof -
  define t1 where "t1 = fl (s / 100)"
  define t2 where "t2 = fl (1 - t1)"
  define D where "D = fl (2 * t2)"
  define t3 where "t3 = fl (D / 2)"
  define t4 where "t4 = fl (1 - t3)"
  have c: "max 0 (min 100 s) = s" using assms by simp
  have 1: "0 \<le> t1 \<and> t1 \<le> 1 \<and> \<bar>t1 - s / 100\<bar> \<le> 1 / 9007199254740992"
    unfolding t1_def using assms by (intro fl_unit_interval) simp_all
  then have 2: "0 \<le> t2 \<and> t2 \<le> 1 \<and> \<bar>t2 - (1 - t1)\<bar> \<le> 1 / 9007199254740992"
    unfolding t2_def by (intro fl_unit_interval) simp_all
  have "D \<le> 2 powi 1" unfolding D_def using 2 by (intro fl_le_pow) simp_all
  moreover have "0 \<le> D" unfolding D_def using 2 by (intro fl_nonneg) simp
  moreover have "\<bar>2 * t2\<bar> < 2 powi 2" using 2 by simp
  from fl_abs_error[OF this] have "\<bar>D - 2 * t2\<bar> \<le> 2 powi (- 52)" by (simp add: D_def)
  ultimately have 3: "0 \<le> D \<and> D \<le> 2 \<and> \<bar>D - 2 * t2\<bar> \<le> 2 / 9007199254740992"
    by (simp add: power_int_minus)
  then have cd: "max 0 (min 2 D) = D" by simp
  from 3 have 4: "0 \<le> t3 \<and> t3 \<le> 1 \<and> \<bar>t3 - D / 2\<bar> \<le> 1 / 9007199254740992"
    unfolding t3_def by (intro fl_unit_interval) simp_all
  then have 5: "0 \<le> t4 \<and> t4 \<le> 1 \<and> \<bar>t4 - (1 - t3)\<bar> \<le> 1 / 9007199254740992"
    unfolding t4_def by (intro fl_unit_interval) simp_all
  then have 6: "\<bar>fl (t4 * 100) - t4 * 100\<bar> \<le> 64 / 9007199254740992"
    by (intro fl_scaled_error) simp_all
  have r: "distanceToSimilarity (similarityToDistance s) = fl (t4 * 100)"
    unfolding distanceToSimilarity_def similarityToDistance_def Let_def c
    unfolding t1_def[symmetric] t2_def[symmetric] D_def[symmetric] cd
    unfolding t3_def[symmetric] t4_def[symmetric] ..
  show ?thesis unfolding r using 1 2 3 4 5 6 by linarith
qed

lemma lexical_chain:
  assumes X: "1 \<le> X"
  defines "q \<equiv> fl X"
  defines "r \<equiv> fl (q - 1)"
  defines "d \<equiv> fl (1 + \<bar>r\<bar>)"
  shows "1 \<le> q \<and> \<bar>q - X\<bar> \<le> X / 9007199254740992
         \<and> 1 \<le> d \<and> \<bar>d - X\<bar> \<le> 4 * X / 9007199254740992"
proof -
  have q1: "1 \<le> q" unfolding q_def using fl_ge_pow[of 0 X] X by simp
  have "2 powi (- 1022) \<le> \<bar>X\<bar>" using X pw_mono[of "- 1022" 0] by simp
  from fl_rel_error[OF this] X have qe: "\<bar>q - X\<bar> \<le> X / 9007199254740992"
    by (simp add: q_def u53)
  have r0: "0 \<le> r" unfolding r_def using q1 by (intro fl_nonneg) simp
  define t :: real where "t = 2 powi (- 1075)"
  have "\<bar>r - (q - 1)\<bar> \<le> 2 powi (- 53) * \<bar>q - 1\<bar> + t"
    unfolding r_def t_def by (rule fl_error_le)
  moreover have "\<bar>q - 1\<bar> = q - 1" using q1 by simp
  ultimately have a: "\<bar>r - (q - 1)\<bar> \<le> (q - 1) / 9007199254740992 + t"
    by (simp only: u53)
  have "t \<le> 2 powi (- 53)" unfolding t_def by (intro pw_mono) simp
  then have b: "t \<le> 1 / 9007199254740992" by (simp only: u53)
  have re: "\<bar>r - (q - 1)\<bar> \<le> q / 9007199254740992"
    using a b q1 by argo
  have d1: "1 \<le> d" unfolding d_def using fl_ge_pow[of 0 "1 + \<bar>r\<bar>"] by simp
  have "2 powi (- 1022) \<le> \<bar>1 + \<bar>r\<bar>\<bar>" using pw_mono[of "- 1022" 0] by simp
  from fl_rel_error[OF this] r0 have de: "\<bar>d - (1 + r)\<bar> \<le> (1 + r) / 9007199254740992"
    by (simp add: d_def u53)
  have "\<bar>d - X\<bar> \<le> 4 * X / 9007199254740992" using qe re de q1 r0 X by argo
  with q1 qe d1 show ?thesis by blast
qed

lemma reciprocal_error:
  fixes X d :: real
  assumes X: "1 \<le> X" and d: "1 \<le> d" and e: "\<bar>d - X\<bar> \<le> 4 * X / 9007199254740992"
  shows "\<bar>100 / d - 100 / X\<bar> \<le> 400 / 9007199254740992"
proof -
  have p: "0 < d * X" using X d by simp
  have eq: "100 / d - 100 / X = 100 * (X - d) / (d * X)" using X d by (simp add: field_simps)
  have ad: "\<bar>d * X\<bar> = d * X" using p by (rule abs_of_pos)
  have an: "\<bar>100 * (X - d)\<bar> = 100 * \<bar>d - X\<bar>"
    by (simp only: abs_mult abs_minus_commute[of X d] abs_numeral)
  have "\<bar>100 / d - 100 / X\<bar> = \<bar>100 * (X - d)\<bar> / \<bar>d * X\<bar>"
    unfolding eq by (rule abs_divide)
  also have "\<dots> = 100 * \<bar>d - X\<bar> / (d * X)" by (simp only: ad an)
  also have "\<dots> \<le> 100 * (4 * X / 9007199254740992) / (d * X)"
    using e p by (intro divide_right_mono mult_left_mono) simp_all
  also have "\<dots> = 400 / 9007199254740992 / d" using X by (simp add: field_simps)
  also have "\<dots> \<le> 400 / 9007199254740992 / 1" using d by (intro divide_left_mono) simp_all
  finally show ?thesis by simp
qed

lemma tiny_score:
  fixes X y :: real
  assumes X: "1 \<le> X" and big: "2 powi 1024 \<le> y" and y: "y \<le> 2 * X"
  shows "100 / X \<le> 1 / 10 ^ 12"
proof -
  have "(2::real) powi 48 \<le> 2 powi 1024" by (intro pw_mono) simp
  then have "(2::real) ^ 48 \<le> y" using big by (simp add: pw_nonneg)
  then have "100000000000000 \<le> X" using y by simp
  then have "100 / X \<le> 100 / 100000000000000" using X by (intro divide_left_mono) simp_all
  then show ?thesis by simp
qed

lemma lexical_roundtrip_error:
  assumes "0 < s" and "s < 100"
  shows "\<bar>normalizeBM25Score (denormalizeToBM25 s) - s\<bar> \<le> 1 / 10 ^ 12"
proof -
  define X where "X = 100 / s"
  define q where "q = fl X"
  define r where "r = fl (q - 1)"
  define d where "d = fl (1 + \<bar>r\<bar>)"
  have X: "1 \<le> X" using assms by (simp add: X_def)
  have s: "s = 100 / X" using assms by (simp add: X_def)
  from lexical_chain[OF X] have ch: "1 \<le> q" "\<bar>q - X\<bar> \<le> X / 9007199254740992"
    "1 \<le> d" "\<bar>d - X\<bar> \<le> 4 * X / 9007199254740992"
    by (simp_all add: q_def r_def d_def)
  have q2: "q \<le> 2 * X" using ch(2) X by argo
  have d2: "d \<le> 2 * X" using ch(4) X by argo
  have den: "denormalizeToBM25 s = (if overflows q then Infinity else Finite r)"
    using assms by (simp add: denormalizeToBM25_def Let_def X_def q_def r_def)
  show ?thesis
  proof (cases "overflows q")
    case True
    then have "2 powi 1024 \<le> q" using ch(1) by (simp add: overflows_iff)
    from tiny_score[OF X this q2] have "s \<le> 1 / 10 ^ 12" by (simp only: s[symmetric])
    then show ?thesis using True den assms by simp
  next
    case nq: False
    then have n: "normalizeBM25Score (denormalizeToBM25 s)
        = (if overflows d then 0 else fl (fl (1 / d) * 100))"
      by (simp add: den d_def Let_def)
    show ?thesis
    proof (cases "overflows d")
      case True
      then have "2 powi 1024 \<le> d" using ch(3) by (simp add: overflows_iff)
      from tiny_score[OF X this d2] have "s \<le> 1 / 10 ^ 12" by (simp only: s[symmetric])
      then show ?thesis using True n assms by simp
    next
      case False
      define b where "b = fl (1 / d)"
      have b: "0 \<le> b \<and> b \<le> 1 \<and> \<bar>b - 1 / d\<bar> \<le> 1 / 9007199254740992"
        unfolding b_def using ch(3) by (intro fl_unit_interval) simp_all
      then have c: "\<bar>fl (b * 100) - b * 100\<bar> \<le> 64 / 9007199254740992"
        by (intro fl_scaled_error) simp_all
      have e: "\<bar>100 / d - s\<bar> \<le> 400 / 9007199254740992"
        unfolding s by (rule reciprocal_error[OF X ch(3) ch(4)])
      have "100 / d = 100 * (1 / d)" by simp
      then have "\<bar>fl (b * 100) - s\<bar> \<le> 564 / 9007199254740992" using b c e by linarith
      then show ?thesis using False n by (simp add: b_def)
    qed
  qed
qed

text \<open>
  C5, with the tolerance \<open>10^-12\<close>. For every \<open>s\<close> strictly between 0 and 100, normalizing
  the raw magnitude that \<open>denormalizeToBM25\<close> gives for \<open>s\<close> returns \<open>s\<close> up to \<open>10^-12\<close>;
  for every \<open>s\<close> from 0 to 100, \<open>distanceToSimilarity (similarityToDistance s)\<close> is \<open>s\<close> up
  to \<open>10^-12\<close>. Every operation is rounded, and the round trips are not exact: at \<open>s = 7\<close>
  they give \<open>6.999999999999999\<close> and \<open>7.000000000000006\<close>. A score so small that the
  quotient \<open>100 / s\<close> overflows comes back as 0, which is within the tolerance.
\<close>

theorem score_conversions_roundtrip:
  "(0 < s \<and> s < 100 \<longrightarrow> \<bar>normalizeBM25Score (denormalizeToBM25 s) - s\<bar> \<le> 1 / 10 ^ 12)
   \<and> (0 \<le> s \<and> s \<le> 100 \<longrightarrow> \<bar>distanceToSimilarity (similarityToDistance s) - s\<bar> \<le> 1 / 10 ^ 12)"
proof (intro conjI impI)
  assume "0 < s \<and> s < 100"
  then show "\<bar>normalizeBM25Score (denormalizeToBM25 s) - s\<bar> \<le> 1 / 10 ^ 12"
    using lexical_roundtrip_error by blast
next
  assume "0 \<le> s \<and> s \<le> 100"
  then have "\<bar>distanceToSimilarity (similarityToDistance s) - s\<bar> \<le> 564 / 9007199254740992"
    using vector_roundtrip_error by blast
  then show "\<bar>distanceToSimilarity (similarityToDistance s) - s\<bar> \<le> 1 / 10 ^ 12" by simp
qed

theorem score_conversions_roundtrip_witness:
  "(0 < (7::real) \<and> (7::real) < 100)
   \<and> \<bar>normalizeBM25Score (denormalizeToBM25 7) - 7\<bar> \<le> 1 / 10 ^ 12
   \<and> normalizeBM25Score (denormalizeToBM25 7) = 7 - 1 / 2 ^ 50
   \<and> (0 \<le> (7::real) \<and> (7::real) \<le> 100)
   \<and> \<bar>distanceToSimilarity (similarityToDistance 7) - 7\<bar> \<le> 1 / 10 ^ 12
   \<and> distanceToSimilarity (similarityToDistance 7) = 7 + 7 / 2 ^ 50"
proof -
  have a: "normalizeBM25Score (denormalizeToBM25 7) = 7 - 1 / 2 ^ 50" by code_simp
  have b: "distanceToSimilarity (similarityToDistance 7) = 7 + 7 / 2 ^ 50" by code_simp
  from score_conversions_roundtrip [of 7] a b show ?thesis by simp
qed

section \<open>The vector searcher on a blank query\<close>

text \<open>
  C10. A constructed vector searcher that is given an empty or white-space-only query
  returns the empty list and makes no call to the embedding service: it neither asks
  whether the service is available nor generates an embedding, so no
  \<open>EMBEDDER_NOT_AVAILABLE\<close> error arises, whatever the state of the service.
\<close>

theorem vector_search_blank_query:
  "VectorSearcher_new True = Inr s \<Longrightarrow> \<forall>c\<in>set query. isSpace c
   \<Longrightarrow> VectorSearcher_search s embedder db query options = ([], Inr [])"
  by (auto simp: VectorSearcher_new_def VectorSearcher_search_def trim_blank)

theorem vector_search_blank_query_witness:
  "VectorSearcher_new True = Inr \<lparr>vs_initialized = True\<rparr>
   \<and> list_all isSpace (ascii ''  '')
   \<and> \<not> isAvailable offline
   \<and> VectorSearcher_search \<lparr>vs_initialized = True\<rparr> offline (\<lambda>q. Inr []) (ascii ''  '') None
       = ([], Inr [])"
proof -
  have a: "VectorSearcher_new True = Inr \<lparr>vs_initialized = True\<rparr>"
    by (simp add: VectorSearcher_new_def)
  have b: "\<forall>c\<in>set (ascii ''  ''). isSpace c" by (simp add: ascii_def isSpace_def)
  show ?thesis
    using a b vector_search_blank_query [OF a b, of offline "\<lambda>q. Inr []" None]
    by (simp add: offline_def list_all_iff)
qed

section \<open>The chunker\<close>

text \<open>
  C6. \<open>chunkDocument\<close> returns no chunk for a text that is empty or consists of white
  space only. For any other text whose trimmed form is estimated at no more than
  \<open>maxTokens\<close> tokens it returns exactly one chunk, with seq 0, pos 0, the trimmed text and
  that estimate as token count.
\<close>

theorem chunkDocument_blank_or_small:
  "((\<forall>ch\<in>set doc. isSpace ch) \<longrightarrow> chunkDocument c h doc = [])
   \<and> (\<not> (\<forall>ch\<in>set doc. isSpace ch)
        \<and> real_of_int (estimateTokenCount (trim doc)) \<le> maxTokens c
      \<longrightarrow> chunkDocument c h doc =
            [\<lparr>chunk_hash = h, seq = 0, pos = 0, chunk_text = trim doc,
              tokenCount = estimateTokenCount (trim doc)\<rparr>])"
  by (auto simp: chunkDocument_def trim_empty_iff Let_def)

theorem chunkDocument_blank_or_small_witness:
  "list_all isSpace (ascii ''  '')
   \<and> chunkDocument (DocumentChunker None) ''h'' (ascii ''  '') = []
   \<and> (\<not> list_all isSpace (ascii '' Hi. '')
      \<and> real_of_int (estimateTokenCount (trim (ascii '' Hi. '')))
          \<le> maxTokens (DocumentChunker None))
   \<and> chunkDocument (DocumentChunker None) ''h'' (ascii '' Hi. '') =
       [\<lparr>chunk_hash = ''h'', seq = 0, pos = 0, chunk_text = ascii ''Hi.'', tokenCount = 3\<rparr>]"
proof -
  have a: "\<forall>ch\<in>set (ascii ''  ''). isSpace ch" by code_simp
  have b: "\<not> (\<forall>ch\<in>set (ascii '' Hi. ''). isSpace ch)" by code_simp
  have t: "trim (ascii '' Hi. '') = ascii ''Hi.''" by code_simp
  have e: "estimateTokenCount (ascii ''Hi.'') = 3" by code_simp
  have m: "maxTokens (DocumentChunker None) = 800" by (simp add: DocumentChunker_def)
  have d: "real_of_int (estimateTokenCount (trim (ascii '' Hi. '')))
             \<le> maxTokens (DocumentChunker None)"
    by (simp add: t e m)
  from chunkDocument_blank_or_small [of "ascii ''  ''" "DocumentChunker None" "''h''"] a
  have r1: "chunkDocument (DocumentChunker None) ''h'' (ascii ''  '') = []" by blast
  from chunkDocument_blank_or_small [of "ascii '' Hi. ''" "DocumentChunker None" "''h''"] b d
  have r2: "chunkDocument (DocumentChunker None) ''h'' (ascii '' Hi. '') =
       [\<lparr>chunk_hash = ''h'', seq = 0, pos = 0, chunk_text = trim (ascii '' Hi. ''),
         tokenCount = estimateTokenCount (trim (ascii '' Hi. ''))\<rparr>]" by blast
  show ?thesis using a b d r1 r2 by (simp add: t e list_all_iff)
qed

subsection \<open>The token estimate\<close>

lemma runs_of_subset: "r \<in> set (runs_of P t) \<Longrightarrow> set r \<subseteq> set t"
proof (induction P t rule: runs_of.induct)
  case (1 P)
  then show ?case by simp
next
  case (2 P x xs)
  show ?case
  proof (cases "P x")
    case True
    with 2 have "r = x # takeWhile P xs \<or> r \<in> set (runs_of P (dropWhile P xs))" by simp
    then show ?thesis
    proof
      assume "r = x # takeWhile P xs"
      then show ?thesis using set_takeWhileD by fastforce
    next
      assume "r \<in> set (runs_of P (dropWhile P xs))"
      with 2 True have "set r \<subseteq> set (dropWhile P xs)" by simp
      then show ?thesis using set_dropWhileD by fastforce
    qed
  next
    case False
    with 2 show ?thesis by auto
  qed
qed

lemma words_non_cjk_no_cjk:
  assumes "\<forall>c\<in>set t. \<not> isCJK c"
  shows "words_non_cjk t = length (runs_of isWordLike t)"
proof -
  have "\<not> list_ex isCJK r" if "r \<in> set (runs_of isWordLike t)" for r
    using runs_of_subset[OF that] assms by (auto simp: list_ex_iff)
  then have "filter (\<lambda>run. \<not> list_ex isCJK run) (runs_of isWordLike t) = runs_of isWordLike t"
    by (simp add: filter_id_conv)
  then show ?thesis by (simp add: words_non_cjk_def)
qed

text \<open>
  C3, as the program has it. With \<open>W\<close> the number of all word-like runs, CJK runs
  included, and \<open>C\<close> the number of CJK characters, \<open>estimateTokenCount\<close> returns
  \<open>ceil((W - min(W, C / 2)) * 1.3) + C + ceil(punctuation_count * 0.5)\<close>: the word count is
  lowered by half the number of CJK characters, not by the number of CJK runs. For a text
  without CJK characters that is the estimate of the specification.
\<close>

theorem estimateTokenCount_amended:
  "estimateTokenCount t =
     \<lceil>(real (length (runs_of isWordLike t))
        - min (real (length (runs_of isWordLike t))) (real (length (filter isCJK t)) / 2)) * (13 / 10)\<rceil>
     + int (length (filter isCJK t))
     + \<lceil>real (length (filter isPunctuation t)) * (1 / 2)\<rceil>
   \<and> ((\<forall>c\<in>set t. \<not> isCJK c) \<longrightarrow> estimateTokenCount t = estimate_as_specified t)"
proof (intro conjI impI)
  show "estimateTokenCount t =
     \<lceil>(real (length (runs_of isWordLike t))
        - min (real (length (runs_of isWordLike t))) (real (length (filter isCJK t)) / 2)) * (13 / 10)\<rceil>
     + int (length (filter isCJK t))
     + \<lceil>real (length (filter isPunctuation t)) * (1 / 2)\<rceil>"
    by (cases "t = []") (simp_all add: estimateTokenCount_def Let_def)
next
  assume a: "\<forall>c\<in>set t. \<not> isCJK c"
  then have c: "filter isCJK t = []" by (simp add: filter_empty_conv)
  have e: "words_non_cjk [] = 0" by (simp add: words_non_cjk_def)
  show "estimateTokenCount t = estimate_as_specified t"
    by (cases "t = []")
       (simp_all add: estimateTokenCount_def estimate_as_specified_def words_non_cjk_no_cjk[OF a] c e Let_def)
qed

theorem estimateTokenCount_amended_witness:
  "\<not> list_ex isCJK (ascii ''Hi there.'')
   \<and> estimateTokenCount (ascii ''Hi there.'') = estimate_as_specified (ascii ''Hi there.'')
   \<and> estimateTokenCount (ascii ''Hi there.'') = 4"
proof -
  have a: "\<not> list_ex isCJK (ascii ''Hi there.'')" by code_simp
  then have b: "\<forall>c\<in>set (ascii ''Hi there.''). \<not> isCJK c" by (simp add: list_ex_iff)
  have e: "estimateTokenCount (ascii ''Hi there.'') = 4" by code_simp
  from estimateTokenCount_amended [of "ascii ''Hi there.''"] b
  have "estimateTokenCount (ascii ''Hi there.'') = estimate_as_specified (ascii ''Hi there.'')" by blast
  with a e show ?thesis by blast
qed

text \<open>
  C3 as stated fails on CJK text. A single CJK character is one run that is CJK, so the
  specified estimate is 1, and the program returns 2; \<open>hello\<close> with a run of four CJK
  characters has one word-like run that is not CJK, so the specified estimate is 6, and
  the program returns 4.
\<close>

theorem estimateTokenCount_cjk_counterexample:
  "estimateTokenCount [0x4F60] = 2 \<and> estimate_as_specified [0x4F60] = 1
   \<and> estimateTokenCount hello_world_cjk = 4 \<and> estimate_as_specified hello_world_cjk = 6"
  by code_simp

subsection \<open>Start positions of the chunks\<close>

text \<open>
  C9 at \<open>abbreviations_doc\<close>. Every sentence of this document is glued from \<open>Dr.\<close>, a space
  and the next part, so it does not occur in the document (which has a line feed there),
  \<open>indexOf\<close> fails and the start position of its segment falls back to the end of the
  previous sentence, without the space between the sentences. The start of a chunk that
  begins with overlap text is computed in the chunk text, where the sentences are joined by
  spaces. The eleven chunks have the seq values 0 to 10, but the chunk with seq 9 starts at
  70 and the chunk with seq 10, which begins with no overlap, at 69.
\<close>

theorem chunkDocument_positions_evaluation:
  "map (\<lambda>ch. (seq ch, pos ch)) (chunkDocument small_chunker ''h'' abbreviations_doc)
     = [(0, 0), (1, 6), (2, 14), (3, 22), (4, 30), (5, 38), (6, 46), (7, 54), (8, 62), (9, 70), (10, 69)]
   \<and> \<not> sorted (map pos (chunkDocument small_chunker ''h'' abbreviations_doc))"
proof -
  have e: "map (\<lambda>ch. (seq ch, pos ch)) (chunkDocument small_chunker ''h'' abbreviations_doc)
     = [(0, 0), (1, 6), (2, 14), (3, 22), (4, 30), (5, 38), (6, 46), (7, 54), (8, 62), (9, 70), (10, 69)]"
    by code_simp
  have "map pos (chunkDocument small_chunker ''h'' abbreviations_doc)
          = map snd (map (\<lambda>ch. (seq ch, pos ch)) (chunkDocument small_chunker ''h'' abbreviations_doc))"
    by (simp add: comp_def)
  then have "map pos (chunkDocument small_chunker ''h'' abbreviations_doc)
               = [0, 6, 14, 22, 30, 38, 46, 54, 62, 70, 69]"
    by (simp only: e) simp
  then have "\<not> sorted (map pos (chunkDocument small_chunker ''h'' abbreviations_doc))" by simp
  with e show ?thesis by blast
qed

section \<open>The lexical searcher on an engine failure\<close>

text \<open>
  C8, as the program has it. The constructor gives an initialized searcher or throws
  \<open>DB_NOT_INITIALIZED\<close>. \<open>search\<close> and \<open>searchWithSnippets\<close> throw \<open>DB_NOT_INITIALIZED\<close>
  exactly when the searcher is not initialized, and then whatever the database would
  answer; an initialized searcher throws nothing but a \<open>SearchError\<close> with code
  \<open>QUERY_ERROR\<close>, and only when the database fails on the prepared query with something
  other than an \<open>Error\<close> whose message contains \<open>fts5\<close>. On a failure of the database, the
  two methods return the empty list exactly when the failure is an \<open>Error\<close> whose message
  contains \<open>fts5\<close>, and throw the \<open>QUERY_ERROR\<close> for every other failure.
\<close>

theorem fts_engine_failure_amended:
  "(FTSSearcher_new db_present = Inr s' \<longrightarrow> initialized s')
   \<and> (FTSSearcher_new db_present = Inl e' \<longrightarrow>
        \<not> db_present \<and> e' = SearchError ''Database not initialized'' DB_NOT_INITIALIZED)
   \<and> (\<not> initialized s \<longrightarrow>
      FTSSearcher_search s db q opts = Inl (SearchError ''Database not initialized'' DB_NOT_INITIALIZED)
      \<and> FTSSearcher_searchWithSnippets s db q opts = Inl (SearchError ''Database not initialized'' DB_NOT_INITIALIZED))
   \<and> ((\<exists>m. FTSSearcher_search s db q opts = Inl (SearchError m DB_NOT_INITIALIZED))
        \<longleftrightarrow> \<not> initialized s)
   \<and> ((\<exists>m. FTSSearcher_searchWithSnippets s db q opts = Inl (SearchError m DB_NOT_INITIALIZED))
        \<longleftrightarrow> \<not> initialized s)
   \<and> (initialized s \<and> FTSSearcher_search s db q opts = Inl e \<longrightarrow>
        (\<exists>err m. db (build_query (sanitizeFTS5Query q) opts False) = Inl err
                 \<and> \<not> mentions_fts5 err \<and> e = SearchError m QUERY_ERROR))
   \<and> (initialized s \<and> FTSSearcher_searchWithSnippets s db q opts = Inl e \<longrightarrow>
        (\<exists>err m. db (build_query (sanitizeFTS5Query q) opts True) = Inl err
                 \<and> \<not> mentions_fts5 err \<and> e = SearchError m QUERY_ERROR))
   \<and> (initialized s \<and> sanitizeFTS5Query q \<noteq> []
        \<and> db (build_query (sanitizeFTS5Query q) opts False) = Inl err \<longrightarrow>
        (if mentions_fts5 err then FTSSearcher_search s db q opts = Inr []
         else \<exists>m. FTSSearcher_search s db q opts = Inl (SearchError m QUERY_ERROR)))
   \<and> (initialized s \<and> sanitizeFTS5Query q \<noteq> []
        \<and> db (build_query (sanitizeFTS5Query q) opts True) = Inl err' \<longrightarrow>
        (if mentions_fts5 err' then FTSSearcher_searchWithSnippets s db q opts = Inr []
         else \<exists>m. FTSSearcher_searchWithSnippets s db q opts = Inl (SearchError m QUERY_ERROR)))"
proof (intro conjI)
  show "FTSSearcher_new db_present = Inr s' \<longrightarrow> initialized s'"
    by (auto simp: FTSSearcher_new_def split: if_splits)
  show "FTSSearcher_new db_present = Inl e' \<longrightarrow>
        \<not> db_present \<and> e' = SearchError ''Database not initialized'' DB_NOT_INITIALIZED"
    by (auto simp: FTSSearcher_new_def split: if_splits)
  show "\<not> initialized s \<longrightarrow>
      FTSSearcher_search s db q opts = Inl (SearchError ''Database not initialized'' DB_NOT_INITIALIZED)
      \<and> FTSSearcher_searchWithSnippets s db q opts = Inl (SearchError ''Database not initialized'' DB_NOT_INITIALIZED)"
    by (simp add: FTSSearcher_search_def FTSSearcher_searchWithSnippets_def)
  show "(\<exists>m. FTSSearcher_search s db q opts = Inl (SearchError m DB_NOT_INITIALIZED))
        \<longleftrightarrow> \<not> initialized s"
    by (auto simp: FTSSearcher_search_def Let_def split: option.splits sum.splits)
  show "(\<exists>m. FTSSearcher_searchWithSnippets s db q opts = Inl (SearchError m DB_NOT_INITIALIZED))
        \<longleftrightarrow> \<not> initialized s"
    by (auto simp: FTSSearcher_searchWithSnippets_def Let_def split: option.splits sum.splits)
  show "initialized s \<and> FTSSearcher_search s db q opts = Inl e \<longrightarrow>
        (\<exists>err m. db (build_query (sanitizeFTS5Query q) opts False) = Inl err
                 \<and> \<not> mentions_fts5 err \<and> e = SearchError m QUERY_ERROR)"
    by (auto simp: FTSSearcher_search_def mentions_fts5_def Let_def
        split: option.splits sum.splits if_splits)
  show "initialized s \<and> FTSSearcher_searchWithSnippets s db q opts = Inl e \<longrightarrow>
        (\<exists>err m. db (build_query (sanitizeFTS5Query q) opts True) = Inl err
                 \<and> \<not> mentions_fts5 err \<and> e = SearchError m QUERY_ERROR)"
    by (auto simp: FTSSearcher_searchWithSnippets_def mentions_fts5_def Let_def
        split: option.splits sum.splits if_splits)
  show "initialized s \<and> sanitizeFTS5Query q \<noteq> []
        \<and> db (build_query (sanitizeFTS5Query q) opts False) = Inl err \<longrightarrow>
        (if mentions_fts5 err then FTSSearcher_search s db q opts = Inr []
         else \<exists>m. FTSSearcher_search s db q opts = Inl (SearchError m QUERY_ERROR))"
    by (auto simp: FTSSearcher_search_def mentions_fts5_def Let_def split: option.splits)
  show "initialized s \<and> sanitizeFTS5Query q \<noteq> []
        \<and> db (build_query (sanitizeFTS5Query q) opts True) = Inl err' \<longrightarrow>
        (if mentions_fts5 err' then FTSSearcher_searchWithSnippets s db q opts = Inr []
         else \<exists>m. FTSSearcher_searchWithSnippets s db q opts = Inl (SearchError m QUERY_ERROR))"
    by (auto simp: FTSSearcher_searchWithSnippets_def mentions_fts5_def Let_def split: option.splits)
qed

theorem fts_engine_failure_amended_witness: \<open>FTSSearcher_new True = Inr built
   \<and> initialized built \<and> sanitizeFTS5Query (ascii ''cats'') \<noteq> []
   \<and> \<not> mentions_fts5 (Error ''database disk image is malformed'')
   \<and> (\<exists>m. FTSSearcher_search built (\<lambda>q. Inl (Error ''database disk image is malformed''))
              (ascii ''cats'') None = Inl (SearchError m QUERY_ERROR))
   \<and> \<not> (\<exists>m. FTSSearcher_search built (\<lambda>q. Inl (Error ''database disk image is malformed''))
              (ascii ''cats'') None = Inl (SearchError m DB_NOT_INITIALIZED))
   \<and> mentions_fts5 (Error ''no such module: fts5'')
   \<and> FTSSearcher_searchWithSnippets built (\<lambda>q. Inl (Error ''no such module: fts5''))
        (ascii ''cats'') None = Inr []
   \<and> \<not> initialized \<lparr>initialized = False\<rparr>
   \<and> FTSSearcher_search \<lparr>initialized = False\<rparr> (\<lambda>q. Inr []) (ascii ''cats'') None
       = Inl (SearchError ''Database not initialized'' DB_NOT_INITIALIZED)\<close>
proof -
  have c: "FTSSearcher_new True = Inr built" by (simp add: FTSSearcher_new_def built_def)
  from fts_engine_failure_amended [where db_present = True and s' = built] c
  have i: "initialized built" by blast
  have s: "sanitizeFTS5Query (ascii ''cats'') \<noteq> []" by code_simp
  have n: "\<not> mentions_fts5 (Error ''database disk image is malformed'')" by code_simp
  have y: "mentions_fts5 (Error ''no such module: fts5'')" by code_simp
  note T = fts_engine_failure_amended [where s = built and q = "ascii ''cats''" and opts = None
      and db = "\<lambda>q. Inl (Error ''database disk image is malformed'')"
      and err = "Error ''database disk image is malformed''"]
  from T i s n
  have a: "\<exists>m. FTSSearcher_search built (\<lambda>q. Inl (Error ''database disk image is malformed''))
              (ascii ''cats'') None = Inl (SearchError m QUERY_ERROR)"
    by simp
  from T i
  have a': "\<not> (\<exists>m. FTSSearcher_search built (\<lambda>q. Inl (Error ''database disk image is malformed''))
              (ascii ''cats'') None = Inl (SearchError m DB_NOT_INITIALIZED))"
    by blast
  from fts_engine_failure_amended [where s = built and q = "ascii ''cats''" and opts = None
      and db = "\<lambda>q. Inl (Error ''no such module: fts5'')"
      and err' = "Error ''no such module: fts5''"] i s y
  have b: "FTSSearcher_searchWithSnippets built (\<lambda>q. Inl (Error ''no such module: fts5''))
        (ascii ''cats'') None = Inr []"
    by simp
  have u: "\<not> initialized \<lparr>initialized = False\<rparr>" by simp
  from fts_engine_failure_amended [where s = "\<lparr>initialized = False\<rparr>" and q = "ascii ''cats''"
      and opts = None and db = "\<lambda>q. Inr []"] u
  have d: "FTSSearcher_search \<lparr>initialized = False\<rparr> (\<lambda>q. Inr []) (ascii ''cats'') None
       = Inl (SearchError ''Database not initialized'' DB_NOT_INITIALIZED)"
    by blast
  show ?thesis using c i s n y a a' b u d by blast
qed

text \<open>
  C8 as stated fails in both directions. The report that the index does not exist,
  \<open>no such table: documents_fts\<close>, does not contain \<open>fts5\<close> and surfaces as a
  \<open>QUERY_ERROR\<close>; a syntax error that FTS5 reports for the query is no such report and
  gives the empty list.
\<close>

theorem fts_missing_index_counterexample: \<open>reports_missing_index (Error ''no such table: documents_fts'')
  \<and> FTSSearcher_search built (\<lambda>q. Inl (Error ''no such table: documents_fts'')) (ascii ''cats'') None
      = Inl (SearchError ''Search query failed: no such table: documents_fts'' QUERY_ERROR)
  \<and> \<not> reports_missing_index (Error ''fts5: syntax error near ","'')
  \<and> FTSSearcher_search built (\<lambda>q. Inl (Error ''fts5: syntax error near ","'')) (ascii ''cats , dogs*'') None
      = Inr []\<close>
proof -
  have a: "reports_missing_index (Error ''no such table: documents_fts'')" by code_simp
  have b: \<open>\<not> reports_missing_index (Error ''fts5: syntax error near ","'')\<close> by code_simp
  have s1: "sanitizeFTS5Query (ascii ''cats'') = ascii ''cats''" by code_simp
  have s2: "sanitizeFTS5Query (ascii ''cats , dogs*'') = ascii ''cats , dogs*''" by code_simp
  have n: "ascii ''cats'' \<noteq> []" "ascii ''cats , dogs*'' \<noteq> []" by (simp_all add: ascii_def)
  have i1: "\<not> str_includes ''no such table: documents_fts'' ''fts5''" by code_simp
  have i2: \<open>str_includes ''fts5: syntax error near ","'' ''fts5''\<close> by code_simp
  show ?thesis using a b n i1 i2
    by (simp add: FTSSearcher_search_def built_def s1 s2 Let_def)
qed

section \<open>Rank fusion\<close>

lemma in_map_setD: "p \<in> set (map_set k v m) \<Longrightarrow> p = (k, v) \<or> p \<in> set m"
  by (induction m) (auto split: if_splits)

lemma foldl_enumerate_snoc:
  "foldl f a (enumerate n (xs @ [x])) = f (foldl f a (enumerate n xs)) (n + length xs, x)"
  by (simp add: enumerate_append_eq)

lemma bm25_fold_lexical_only:
  "p \<in> set (foldl (bm25Step k) [] (enumerate n bs)) \<Longrightarrow> lexical_only (snd p)"
proof (induction bs arbitrary: p rule: rev_induct)
  case Nil
  then show ?case by simp
next
  case (snoc b bs)
  from snoc.prems show ?case
    unfolding foldl_enumerate_snoc
    by (auto simp: bm25Step_def Let_def lexical_only_def dest!: in_map_setD dest: snoc.IH)
qed

lemma vector_fold_vector_only:
  "p \<in> set (foldl (vectorStep k) [] (enumerate n vs)) \<Longrightarrow> vector_only (snd p)"
proof (induction vs arbitrary: p rule: rev_induct)
  case Nil
  then show ?case by simp
next
  case (snoc v vs)
  let ?m = "foldl (vectorStep k) [] (enumerate n vs)"
  show ?case
  proof (cases "map_of ?m (vec_hash v)")
    case None
    with snoc.prems show ?thesis
      unfolding foldl_enumerate_snoc
      by (auto simp: vectorStep_def Let_def vector_only_def dest!: in_map_setD dest: snoc.IH)
  next
    case (Some ex)
    then have "(vec_hash v, ex) \<in> set ?m" by (rule map_of_SomeD)
    then have "vector_only ex" using snoc.IH by fastforce
    with Some snoc.prems show ?thesis
      unfolding foldl_enumerate_snoc
      by (auto simp: vectorStep_def Let_def vector_only_def dest!: in_map_setD dest: snoc.IH)
  qed
qed

lemma rrfFusion_entry:
  assumes "r \<in> set (rrfFusion b v k)"
  shows "fused_entry.truncate r \<in> snd ` set (accumulate k b v)"
proof -
  let ?fs = "sort_key (\<lambda>e. - rrfScore e) (map snd (accumulate k b v))"
  from assms obtain i e where ie: "(i, e) \<in> set (enumerate 0 ?fs)"
    and r: "fused_entry.truncate r = e"
    by (auto simp: rrfFusion_def Let_def fused_entry.truncate_def fused_entry.defs)
  from ie have "e \<in> set ?fs" by (metis in_set_zipE enumerate_eq_zip)
  then have "e \<in> set (map snd (accumulate k b v))" by (simp only: set_sort)
  then show ?thesis using r by simp
qed

lemma rrfFusion_Nil: "rrfFusion [] [] k = []"
  by (simp add: rrfFusion_def accumulate_def)

lemma vector_only_truncate: "vector_only (fused_entry.truncate r) = vector_only r"
  by (simp add: vector_only_def fused_entry.truncate_def)

lemma lexical_only_truncate: "lexical_only (fused_entry.truncate r) = lexical_only r"
  by (simp add: lexical_only_def fused_entry.truncate_def)

lemma fusion_vector_only: "list_all vector_only (rrfFusion [] vs k)"
proof -
  have "vector_only r" if "r \<in> set (rrfFusion [] vs k)" for r
  proof -
    from rrfFusion_entry[OF that] obtain p where "p \<in> set (accumulate k [] vs)"
      and "fused_entry.truncate r = snd p" by auto
    then show ?thesis
      using vector_fold_vector_only[of p k 0 vs] vector_only_truncate[of r]
      by (simp add: accumulate_def)
  qed
  then show ?thesis by (simp add: list_all_iff)
qed

lemma fusion_lexical_only: "list_all lexical_only (rrfFusion bs [] k)"
proof -
  have "lexical_only r" if "r \<in> set (rrfFusion bs [] k)" for r
  proof -
    from rrfFusion_entry[OF that] obtain p where "p \<in> set (accumulate k bs [])"
      and "fused_entry.truncate r = snd p" by auto
    then show ?thesis
      using bm25_fold_lexical_only[of p k 0 bs] lexical_only_truncate[of r]
      by (simp add: accumulate_def)
  qed
  then show ?thesis by (simp add: list_all_iff)
qed

lemma thresholdAndLimit_Nil: "thresholdAndLimit options [] = []"
  by (simp add: thresholdAndLimit_def slice0_def split: option.splits)

subsection \<open>Scores are positive and sorted\<close>




lemma fused_descending: "sorted (map (\<lambda>e. - rrfScore e) (fused k b v))"
  by (simp add: fused_def)


lemma map_snd_enumerate_fun: "map (\<lambda>x. f (snd x)) (enumerate n xs) = map f xs"
  by (induction xs arbitrary: n) simp_all

lemma map_score_rrfFusion: "map rrfScore (rrfFusion b v k) = map rrfScore (fused k b v)"
  by (simp add: rrfFusion_def fused_def Let_def comp_def case_prod_beta map_snd_enumerate_fun)







subsection \<open>The score of a document\<close>

lemma position_of_None_iff: "position_of x ys = None \<longleftrightarrow> x \<notin> set ys"
  by (induction ys) auto

lemma position_of_snoc:
  "position_of x (ys @ [y]) =
     (case position_of x ys of
        Some i \<Rightarrow> Some i
      | None \<Rightarrow> if x = y then Some (Suc (length ys)) else None)"
  by (induction ys) (auto split: option.splits)

lemma position_of_snoc_other: "x \<noteq> y \<Longrightarrow> position_of x (ys @ [y]) = position_of x ys"
  by (simp add: position_of_snoc split: option.splits)

lemma position_of_snoc_new: "y \<notin> set ys \<Longrightarrow> position_of y (ys @ [y]) = Some (Suc (length ys))"
  using position_of_None_iff[of y ys] by (simp add: position_of_snoc)

lemma map_of_map_set: "map_of (map_set k v m) = (map_of m)(k \<mapsto> v)"
  by (induction m) auto

lemma keys_map_set:
  "map fst (map_set k v m) = (if k \<in> set (map fst m) then map fst m else map fst m @ [k])"
  by (induction m) force+

lemma set_keys_map_set: "set (map fst (map_set k v m)) = insert k (set (map fst m))"
  by (auto simp: keys_map_set)

lemma fusion_inv_step:
  assumes inv: "fusion_inv k hb hv m"
    and keys': "insert h (set hb \<union> set hv) = set hb' \<union> set hv'"
    and new: "hash e = h \<and> bm25Rank e = position_of h hb' \<and> vectorRank e = position_of h hv'
              \<and> rrfScore e = contribution k (bm25Rank e) + contribution k (vectorRank e)"
    and old: "\<And>h'. h' \<noteq> h \<Longrightarrow> position_of h' hb' = position_of h' hb
                                \<and> position_of h' hv' = position_of h' hv"
  shows "fusion_inv k hb' hv' (map_set h e m)"
  unfolding fusion_inv_def
proof (intro conjI allI impI)
  from inv have d: "distinct (map fst m)" by (simp add: fusion_inv_def)
  then show "distinct (map fst (map_set h e m))" by (simp add: keys_map_set)
  from inv have "set (map fst m) = set hb \<union> set hv" by (simp add: fusion_inv_def)
  then show "set (map fst (map_set h e m)) = set hb' \<union> set hv'"
    using keys' by (simp only: set_keys_map_set)
next
  fix h' e' assume a: "map_of (map_set h e m) h' = Some e'"
  have f: "hash e' = h' \<and> bm25Rank e' = position_of h' hb' \<and> vectorRank e' = position_of h' hv'
        \<and> rrfScore e' = contribution k (bm25Rank e') + contribution k (vectorRank e')"
  proof (cases "h' = h")
    case True
    with a have "e' = e" by (simp add: map_of_map_set)
    with True new show ?thesis by simp
  next
    case False
    with a have "map_of m h' = Some e'" by (simp add: map_of_map_set)
    with inv have "hash e' = h' \<and> bm25Rank e' = position_of h' hb \<and> vectorRank e' = position_of h' hv
        \<and> rrfScore e' = contribution k (bm25Rank e') + contribution k (vectorRank e')"
      unfolding fusion_inv_def by blast
    with old[OF False] show ?thesis by simp
  qed
  from f show "hash e' = h'" by simp
  from f show "bm25Rank e' = position_of h' hb'" by simp
  from f show "vectorRank e' = position_of h' hv'" by simp
  from f show "rrfScore e' = contribution k (bm25Rank e') + contribution k (vectorRank e')" by simp
qed

lemma bm25Step_inv:
  assumes inv: "fusion_inv k hb [] m" and new: "fts_hash b \<notin> set hb"
  shows "fusion_inv k (hb @ [fts_hash b]) [] (bm25Step k m (length hb, b))"
proof -
  from inv have keys: "set (map fst m) = set hb" by (simp add: fusion_inv_def)
  have np: "position_of (fts_hash b) (hb @ [fts_hash b]) = Some (length hb + 1)"
    using position_of_snoc_new[OF new] by simp
  show ?thesis
    unfolding bm25Step_def Let_def prod.case
  proof (rule fusion_inv_step[OF inv])
    show "insert (fts_hash b) (set hb \<union> set []) = set (hb @ [fts_hash b]) \<union> set []"
      by simp
  qed (simp_all add: np position_of_snoc_other)
qed

lemma bm25_fold_inv:
  "distinct (map fts_hash bs)
   \<Longrightarrow> fusion_inv k (map fts_hash bs) [] (foldl (bm25Step k) [] (enumerate 0 bs))"
proof (induction bs rule: rev_induct)
  case Nil
  then show ?case by (simp add: fusion_inv_def)
next
  case (snoc b bs)
  then have inv: "fusion_inv k (map fts_hash bs) [] (foldl (bm25Step k) [] (enumerate 0 bs))"
    and new: "fts_hash b \<notin> set (map fts_hash bs)" by auto
  from bm25Step_inv[OF inv new] show ?case
    by (simp add: foldl_enumerate_snoc)
qed

lemma vectorStep_inv:
  assumes inv: "fusion_inv k hb hv m" and new: "vec_hash x \<notin> set hv"
  shows "fusion_inv k hb (hv @ [vec_hash x]) (vectorStep k m (length hv, x))"
proof -
  let ?h = "vec_hash x"
  from inv have keys: "set (map fst m) = set hb \<union> set hv" by (simp add: fusion_inv_def)
  have np: "position_of ?h (hv @ [?h]) = Some (length hv + 1)"
    using position_of_snoc_new[OF new] by simp
  have ov: "position_of ?h hv = None" using new by (simp add: position_of_None_iff)
  show ?thesis
  proof (cases "map_of m ?h")
    case None
    then have "?h \<notin> set (map fst m)" by (simp add: map_of_eq_None_iff)
    then have nb: "?h \<notin> set hb" using keys by simp
    then have ob: "position_of ?h hb = None" by (simp add: position_of_None_iff)
    show ?thesis
      unfolding vectorStep_def Let_def prod.case None option.case
    proof (rule fusion_inv_step[OF inv])
      show "insert ?h (set hb \<union> set hv) = set hb \<union> set (hv @ [?h])"
        by simp
    qed (simp_all add: np ob position_of_snoc_other)
  next
    case (Some ex)
    then have "?h \<in> set (map fst m)" by (metis map_of_eq_None_iff option.distinct(1) set_map)
    then have ink: "?h \<in> set hb \<union> set hv" using keys by simp
    from inv Some have ex: "hash ex = ?h \<and> bm25Rank ex = position_of ?h hb
        \<and> vectorRank ex = position_of ?h hv
        \<and> rrfScore ex = contribution k (bm25Rank ex) + contribution k (vectorRank ex)"
      unfolding fusion_inv_def by blast
    show ?thesis
      unfolding vectorStep_def Let_def prod.case Some option.case
    proof (rule fusion_inv_step[OF inv])
      show "insert ?h (set hb \<union> set hv) = set hb \<union> set (hv @ [?h])"
        by simp
    qed (simp_all add: np ov ex position_of_snoc_other)
  qed
qed

lemma vector_fold_inv:
  "fusion_inv k hb [] m0 \<Longrightarrow> distinct (map vec_hash vs)
   \<Longrightarrow> fusion_inv k hb (map vec_hash vs) (foldl (vectorStep k) m0 (enumerate 0 vs))"
proof (induction vs rule: rev_induct)
  case Nil
  then show ?case by simp
next
  case (snoc x vs)
  then have inv: "fusion_inv k hb (map vec_hash vs) (foldl (vectorStep k) m0 (enumerate 0 vs))"
    and new: "vec_hash x \<notin> set (map vec_hash vs)" by auto
  from vectorStep_inv[OF inv new] show ?case
    by (simp add: foldl_enumerate_snoc)
qed

lemma accumulate_inv:
  "distinct (map fts_hash b) \<Longrightarrow> distinct (map vec_hash v)
   \<Longrightarrow> fusion_inv k (map fts_hash b) (map vec_hash v) (accumulate k b v)"
  unfolding accumulate_def by (intro vector_fold_inv bm25_fold_inv)

lemma map_hash_rrfFusion: "map hash (rrfFusion b v k) = map hash (fused k b v)"
proof -
  have "map hash (rrfFusion b v k) = map (\<lambda>x. hash (snd x)) (enumerate 0 (fused k b v))"
    by (simp add: rrfFusion_def fused_def Let_def case_prod_beta)
  also have "\<dots> = map hash (fused k b v)" by (rule map_snd_enumerate_fun)
  finally show ?thesis .
qed

lemma fused_descending_wrt: "sorted_wrt (\<lambda>x y. y \<le> x) (map rrfScore (fused k b v))"
proof -
  have "sorted_wrt (\<le>) (map (\<lambda>e. - rrfScore e) (fused k b v))"
    using fused_descending[of k b v] by simp
  then show ?thesis by (simp add: sorted_wrt_map)
qed

lemma fusion_inv_entry:
  assumes inv: "fusion_inv k hb hv m" and e: "e \<in> snd ` set m"
  shows "bm25Rank e = position_of (hash e) hb \<and> vectorRank e = position_of (hash e) hv
         \<and> rrfScore e = contribution k (bm25Rank e) + contribution k (vectorRank e)"
proof -
  from e obtain h where "(h, e) \<in> set m" by force
  moreover from inv have "distinct (map fst m)" by (simp add: fusion_inv_def)
  ultimately have "map_of m h = Some e" by simp
  with inv have "hash e = h \<and> bm25Rank e = position_of h hb \<and> vectorRank e = position_of h hv
         \<and> rrfScore e = contribution k (bm25Rank e) + contribution k (vectorRank e)"
    unfolding fusion_inv_def by blast
  then show ?thesis by simp
qed

lemma rrfFusion_ranks:
  assumes db: "distinct (map fts_hash b)" and dv: "distinct (map vec_hash v)"
    and r: "r \<in> set (rrfFusion b v k)"
  shows "bm25Rank r = position_of (hash r) (map fts_hash b)
       \<and> vectorRank r = position_of (hash r) (map vec_hash v)
       \<and> rrfScore r = contribution k (bm25Rank r) + contribution k (vectorRank r)"
proof -
  have "fused_entry.truncate r \<in> snd ` set (accumulate k b v)" using r by (rule rrfFusion_entry)
  from fusion_inv_entry[OF accumulate_inv[OF db dv] this]
  show ?thesis by (simp add: fused_entry.truncate_def)
qed

subsection \<open>The documents and fields of a fusion\<close>

lemma carries_lexical_iff:
  "carries_lexical bs e \<longleftrightarrow>
     (\<exists>i<length bs. fts_hash (bs ! i) = hash e \<and> bm25Rank e = Some (i + 1)
                     \<and> bm25Score e = Some (fts_score (bs ! i)))"
  by (auto simp: carries_lexical_def list_ex_iff in_set_enumerate_eq)

lemma carries_vector_iff:
  "carries_vector vs e \<longleftrightarrow>
     (\<exists>i<length vs. vec_hash (vs ! i) = hash e \<and> vectorRank e = Some (i + 1)
                     \<and> similarity e = Some (vec_similarity (vs ! i)))"
  by (auto simp: carries_vector_def list_ex_iff in_set_enumerate_eq)

lemma carries_lexical_snoc: "carries_lexical bs e \<Longrightarrow> carries_lexical (bs @ [b]) e"
  unfolding carries_lexical_iff
  by (metis length_append_singleton less_SucI nth_append)

lemma carries_vector_snoc: "carries_vector vs e \<Longrightarrow> carries_vector (vs @ [v]) e"
  unfolding carries_vector_iff
  by (metis length_append_singleton less_SucI nth_append)

lemma carries_lexical_new:
  "fts_hash b = hash e \<Longrightarrow> bm25Rank e = Some (length bs + 1) \<Longrightarrow> bm25Score e = Some (fts_score b)
   \<Longrightarrow> carries_lexical (bs @ [b]) e"
  unfolding carries_lexical_iff by (intro exI[of _ "length bs"]) simp

lemma carries_vector_new:
  "vec_hash v = hash e \<Longrightarrow> vectorRank e = Some (length vs + 1)
   \<Longrightarrow> similarity e = Some (vec_similarity v)
   \<Longrightarrow> carries_vector (vs @ [v]) e"
  unfolding carries_vector_iff by (intro exI[of _ "length vs"]) simp

lemma carries_lexical_vector_update:
  "carries_lexical bs (e\<lparr>rrfScore := x, similarity := y, vectorRank := z\<rparr>) = carries_lexical bs e"
  by (simp add: carries_lexical_def)

lemma carries_truncate:
  "carries_lexical bs (fused_entry.truncate r) = carries_lexical bs r"
  "carries_vector vs (fused_entry.truncate r) = carries_vector vs r"
  by (simp_all add: carries_lexical_def carries_vector_def fused_entry.truncate_def)

lemma fields_inv_step:
  assumes inv: "fields_inv bs vs m"
    and keys': "insert h (set (map fts_hash bs) \<union> set (map vec_hash vs))
                  = set (map fts_hash bs') \<union> set (map vec_hash vs')"
    and new: "hash e = h" "h \<in> set (map fts_hash bs') \<Longrightarrow> carries_lexical bs' e"
      "h \<in> set (map vec_hash vs') \<Longrightarrow> carries_vector vs' e"
    and old: "\<And>h' e'. h' \<noteq> h \<Longrightarrow> map_of m h' = Some e' \<Longrightarrow>
                (h' \<in> set (map fts_hash bs') \<longrightarrow> carries_lexical bs' e')
                \<and> (h' \<in> set (map vec_hash vs') \<longrightarrow> carries_vector vs' e')"
  shows "fields_inv bs' vs' (map_set h e m)"
  unfolding fields_inv_def
proof (intro conjI allI impI)
  from inv have d: "distinct (map fst m)" by (simp add: fields_inv_def)
  then show "distinct (map fst (map_set h e m))" by (simp add: keys_map_set)
  from inv have "set (map fst m) = set (map fts_hash bs) \<union> set (map vec_hash vs)"
    by (simp add: fields_inv_def)
  then show "set (map fst (map_set h e m)) = set (map fts_hash bs') \<union> set (map vec_hash vs')"
    using keys' by (simp only: set_keys_map_set)
next
  fix h' e' assume a: "map_of (map_set h e m) h' = Some e'"
  show "hash e' = h'"
  proof (cases "h' = h")
    case True
    with a new(1) show ?thesis by (simp add: map_of_map_set)
  next
    case False
    with a have "map_of m h' = Some e'" by (simp add: map_of_map_set)
    with inv show ?thesis unfolding fields_inv_def by blast
  qed
next
  fix h' e' assume a: "map_of (map_set h e m) h' = Some e'"
    and b: "h' \<in> set (map fts_hash bs')"
  show "carries_lexical bs' e'"
  proof (cases "h' = h")
    case True
    with a have "e' = e" by (simp add: map_of_map_set)
    with True b new(2) show ?thesis by simp
  next
    case False
    with a have "map_of m h' = Some e'" by (simp add: map_of_map_set)
    from old[OF False this] b show ?thesis by blast
  qed
next
  fix h' e' assume a: "map_of (map_set h e m) h' = Some e'"
    and b: "h' \<in> set (map vec_hash vs')"
  show "carries_vector vs' e'"
  proof (cases "h' = h")
    case True
    with a have "e' = e" by (simp add: map_of_map_set)
    with True b new(3) show ?thesis by simp
  next
    case False
    with a have "map_of m h' = Some e'" by (simp add: map_of_map_set)
    from old[OF False this] b show ?thesis by blast
  qed
qed

lemma bm25Step_fields:
  assumes inv: "fields_inv bs [] m"
  shows "fields_inv (bs @ [b]) [] (bm25Step k m (length bs, b))"
  unfolding bm25Step_def Let_def prod.case
proof (rule fields_inv_step[OF inv])
  show "insert (fts_hash b) (set (map fts_hash bs) \<union> set (map vec_hash []))
          = set (map fts_hash (bs @ [b])) \<union> set (map vec_hash [])"
    by simp
next
  fix h' e' assume "h' \<noteq> fts_hash b" and m: "map_of m h' = Some e'"
  with inv have "h' \<in> set (map fts_hash bs) \<longrightarrow> carries_lexical bs e'"
    unfolding fields_inv_def by blast
  then show "(h' \<in> set (map fts_hash (bs @ [b])) \<longrightarrow> carries_lexical (bs @ [b]) e')
             \<and> (h' \<in> set (map vec_hash []) \<longrightarrow> carries_vector [] e')"
    using \<open>h' \<noteq> fts_hash b\<close> by (auto intro: carries_lexical_snoc)
qed (simp_all add: carries_lexical_new)

lemma bm25_fold_fields: "fields_inv bs [] (foldl (bm25Step k) [] (enumerate 0 bs))"
proof (induction bs rule: rev_induct)
  case Nil
  then show ?case by (simp add: fields_inv_def)
next
  case (snoc b bs)
  from bm25Step_fields[OF snoc] show ?case by (simp add: foldl_enumerate_snoc)
qed

lemma vectorStep_fields:
  assumes inv: "fields_inv bs vs m"
  shows "fields_inv bs (vs @ [v]) (vectorStep k m (length vs, v))"
proof -
  let ?h = "vec_hash v"
  have old: "(h' \<in> set (map fts_hash bs) \<longrightarrow> carries_lexical bs e')
             \<and> (h' \<in> set (map vec_hash (vs @ [v])) \<longrightarrow> carries_vector (vs @ [v]) e')"
    if "h' \<noteq> ?h" and "map_of m h' = Some e'" for h' e'
  proof -
    from inv that(2) have "(h' \<in> set (map fts_hash bs) \<longrightarrow> carries_lexical bs e')
        \<and> (h' \<in> set (map vec_hash vs) \<longrightarrow> carries_vector vs e')"
      unfolding fields_inv_def by blast
    then show ?thesis using that(1) by (auto intro: carries_vector_snoc)
  qed
  have keys: "insert ?h (set (map fts_hash bs) \<union> set (map vec_hash vs))
                = set (map fts_hash bs) \<union> set (map vec_hash (vs @ [v]))"
    by simp
  show ?thesis
  proof (cases "map_of m ?h")
    case None
    then have "?h \<notin> set (map fst m)" by (simp add: map_of_eq_None_iff)
    with inv have nb: "?h \<notin> fts_hash ` set bs" by (auto simp: fields_inv_def)
    show ?thesis
      unfolding vectorStep_def Let_def prod.case None option.case
      by (rule fields_inv_step[OF inv keys _ _ _ old]) (simp_all add: nb carries_vector_new)
  next
    case (Some ex)
    with inv have ex: "hash ex = ?h" "?h \<in> set (map fts_hash bs) \<longrightarrow> carries_lexical bs ex"
      unfolding fields_inv_def by blast+
    show ?thesis
      unfolding vectorStep_def Let_def prod.case Some option.case
      by (rule fields_inv_step[OF inv keys _ _ _ old])
         (simp_all add: ex carries_lexical_vector_update carries_vector_new)
  qed
qed

lemma vector_fold_fields:
  "fields_inv bs [] m0 \<Longrightarrow> fields_inv bs vs (foldl (vectorStep k) m0 (enumerate 0 vs))"
proof (induction vs rule: rev_induct)
  case Nil
  then show ?case by simp
next
  case (snoc x vs)
  from vectorStep_fields[OF snoc.IH[OF snoc.prems]] show ?case
    by (simp add: foldl_enumerate_snoc)
qed

lemma accumulate_fields: "fields_inv b v (accumulate k b v)"
  unfolding accumulate_def by (intro vector_fold_fields bm25_fold_fields)

lemma fields_inv_hashes:
  assumes inv: "fields_inv bs vs m"
  shows "map hash (map snd m) = map fst m"
proof -
  from inv have d: "distinct (map fst m)" by (simp add: fields_inv_def)
  have "hash (snd p) = fst p" if "p \<in> set m" for p
  proof -
    from that have "(fst p, snd p) \<in> set m" by simp
    with d have "map_of m (fst p) = Some (snd p)" by (simp only: map_of_eq_Some_iff)
    with inv show ?thesis unfolding fields_inv_def by blast
  qed
  then show ?thesis by simp
qed

lemma rrfFusion_documents:
  "distinct (map hash (rrfFusion b v k))
   \<and> set (map hash (rrfFusion b v k)) = set (map fts_hash b) \<union> set (map vec_hash v)"
proof -
  let ?m = "accumulate k b v"
  have inv: "fields_inv b v ?m" by (rule accumulate_fields)
  then have d: "distinct (map fst ?m)"
    and s: "set (map fst ?m) = set (map fts_hash b) \<union> set (map vec_hash v)"
    by (simp_all add: fields_inv_def)
  have h: "map hash (map snd ?m) = map fst ?m" by (rule fields_inv_hashes[OF inv])
  have "distinct (map hash (map snd ?m))" unfolding h by (rule d)
  then have "distinct (map snd ?m) \<and> inj_on hash (set (map snd ?m))" by (simp only: distinct_map)
  then have "distinct (fused k b v) \<and> inj_on hash (set (fused k b v))" by (simp add: fused_def)
  then have 1: "distinct (map hash (fused k b v))" by (simp only: distinct_map)
  have "set (map hash (fused k b v)) = hash ` set (fused k b v)" by simp
  also have "\<dots> = hash ` set (map snd ?m)" by (simp add: fused_def)
  also have "\<dots> = set (map hash (map snd ?m))" by (simp only: set_map)
  also have "\<dots> = set (map fts_hash b) \<union> set (map vec_hash v)" unfolding h by (rule s)
  finally have 2: "set (map hash (fused k b v)) = set (map fts_hash b) \<union> set (map vec_hash v)" .
  show ?thesis using 1 2 by (simp only: map_hash_rrfFusion)
qed

lemma rrfFusion_carries:
  assumes r: "r \<in> set (rrfFusion b v k)"
  shows "(hash r \<in> set (map fts_hash b) \<longrightarrow> carries_lexical b r)
         \<and> (hash r \<in> set (map vec_hash v) \<longrightarrow> carries_vector v r)"
proof -
  let ?m = "accumulate k b v"
  have inv: "fields_inv b v ?m" by (rule accumulate_fields)
  from rrfFusion_entry[OF r] obtain p where p: "p \<in> set ?m" "fused_entry.truncate r = snd p"
    by auto
  from p(1) have "(fst p, snd p) \<in> set ?m" by simp
  moreover from inv have "distinct (map fst ?m)" by (simp add: fields_inv_def)
  ultimately have "map_of ?m (fst p) = Some (snd p)" by (simp only: map_of_eq_Some_iff)
  with inv have "hash (snd p) = fst p
      \<and> (fst p \<in> set (map fts_hash b) \<longrightarrow> carries_lexical b (snd p))
      \<and> (fst p \<in> set (map vec_hash v) \<longrightarrow> carries_vector v (snd p))"
    unfolding fields_inv_def by blast
  moreover have "hash (snd p) = hash r"
    unfolding p(2)[symmetric] by (simp add: fused_entry.truncate_def)
  ultimately show ?thesis using carries_truncate(1)[of b r] carries_truncate(2)[of v r] p(2)
    by (simp del: set_map)
qed

lemma fusion_carries_vector: "list_all (carries_vector vs) (rrfFusion [] vs k)"
proof -
  have "carries_vector vs r" if "r \<in> set (rrfFusion [] vs k)" for r
  proof -
    from that have "hash r \<in> set (map hash (rrfFusion [] vs k))" by simp
    then have "hash r \<in> set (map vec_hash vs)" using rrfFusion_documents[of "[]" vs k] by simp
    with rrfFusion_carries[OF that] show ?thesis by blast
  qed
  then show ?thesis by (simp add: list_all_iff)
qed

lemma fusion_carries_lexical: "list_all (carries_lexical bs) (rrfFusion bs [] k)"
proof -
  have "carries_lexical bs r" if "r \<in> set (rrfFusion bs [] k)" for r
  proof -
    from that have "hash r \<in> set (map hash (rrfFusion bs [] k))" by simp
    then have "hash r \<in> set (map fts_hash bs)" using rrfFusion_documents[of bs "[]" k] by simp
    with rrfFusion_carries[OF that] show ?thesis by blast
  qed
  then show ?thesis by (simp add: list_all_iff)
qed

lemma thresholdAndLimit_all:
  "minScore options = None \<Longrightarrow> int (length rs) \<le> or_default DEFAULT_LIMIT (limit options)
   \<Longrightarrow> thresholdAndLimit options rs = rs"
  by (simp add: thresholdAndLimit_def slice0_def)

subsection \<open>Scores on lists without repeated hashes, and on a repeated hash\<close>

text \<open>
  Whatever the candidate lists, \<open>rrfFusion\<close> returns one result for each document of
  either list, sorted by \<open>rrfScore\<close>, descending.
\<close>

lemma rrfFusion_sorted: "sorted_wrt (\<lambda>x y. y \<le> x) (map rrfScore (rrfFusion b v k))"
  unfolding map_score_rrfFusion by (rule fused_descending_wrt)

text \<open>
  When no hash occurs twice within one list, the recorded ranks of a result are the 1-based
  positions of its document in the two lists and its \<open>rrfScore\<close> is the sum of
  \<open>1 / (k + rank)\<close> over the lists in which the document occurs; a document at rank 3 in
  both lists then scores strictly higher than a document at rank 3 in only one list.
\<close>

lemma rrfFusion_scores_distinct:
  assumes k: "0 < k" and db: "distinct (map fts_hash b)" and dv: "distinct (map vec_hash v)"
    and db': "distinct (map fts_hash b')" and dv': "distinct (map vec_hash v')"
  shows "(\<forall>r\<in>set (rrfFusion b v k).
          bm25Rank r = position_of (hash r) (map fts_hash b)
          \<and> vectorRank r = position_of (hash r) (map vec_hash v)
          \<and> rrfScore r = contribution k (bm25Rank r) + contribution k (vectorRank r))
    \<and> (\<forall>r\<in>set (rrfFusion b v k). \<forall>r'\<in>set (rrfFusion b' v' k).
          bm25Rank r = Some 3 \<and> vectorRank r = Some 3
          \<and> (bm25Rank r' = Some 3 \<and> vectorRank r' = None
              \<or> bm25Rank r' = None \<and> vectorRank r' = Some 3)
          \<longrightarrow> rrfScore r' < rrfScore r)"
proof (intro conjI ballI impI)
  fix r assume "r \<in> set (rrfFusion b v k)"
  from rrfFusion_ranks[OF db dv this]
  show "bm25Rank r = position_of (hash r) (map fts_hash b)"
    and "vectorRank r = position_of (hash r) (map vec_hash v)"
    and "rrfScore r = contribution k (bm25Rank r) + contribution k (vectorRank r)"
    by simp_all
next
  fix r r' assume r: "r \<in> set (rrfFusion b v k)" and r': "r' \<in> set (rrfFusion b' v' k)"
    and a: "bm25Rank r = Some 3 \<and> vectorRank r = Some 3
          \<and> (bm25Rank r' = Some 3 \<and> vectorRank r' = None
              \<or> bm25Rank r' = None \<and> vectorRank r' = Some 3)"
  from rrfFusion_ranks[OF db dv r] a have s: "rrfScore r = 1 / (k + 3) + 1 / (k + 3)" by simp
  from rrfFusion_ranks[OF db' dv' r'] a have s': "rrfScore r' = 1 / (k + 3)" by auto
  have "0 < 1 / (k + 3)" using k by simp
  then show "rrfScore r' < rrfScore r" unfolding s s' by linarith
qed

text \<open>
  C1 at vector candidates that repeat a hash, as the rows of two chunks of one document do.
  The vector loop of \<open>rrfFusion\<close> takes its branch for a document that is already in the map
  and adds a contribution for every occurrence. In \<open>vector_aa\<close> the document \<open>a\<close> stands at
  positions 1 and 2 of the only list it is in: it is recorded at \<open>vectorRank\<close> 2 with the
  score \<open>1/61 + 1/62\<close>, which is \<open>1 / (k + rank)\<close> for neither position. In \<open>vector_ded\<close>
  the document \<open>d\<close> stands at positions 1 and 3: it is recorded at rank 3 of the vector list
  and at no lexical rank, with the score \<open>1/61 + 1/63\<close>, and so outscores the document that
  is at rank 3 in both lists of another fusion, whose score is \<open>2/63\<close>.
\<close>

theorem rrfFusion_repeated_hash_evaluation:
  "map (\<lambda>r. (hash r, bm25Rank r, vectorRank r, rrfScore r)) (rrfFusion [] vector_aa 60)
     = [(''a'', None, Some 2, 1 / 61 + 1 / 62)]
   \<and> position_of ''a'' (map vec_hash vector_aa) = Some 1
   \<and> (1 / 61 + 1 / 62 :: real) \<noteq> contribution 60 None + contribution 60 (Some 1)
   \<and> (1 / 61 + 1 / 62 :: real) \<noteq> contribution 60 None + contribution 60 (Some 2)
   \<and> map (\<lambda>r. (hash r, bm25Rank r, vectorRank r, rrfScore r)) (rrfFusion [] vector_ded 60)
     = [(''d'', None, Some 3, 1 / 61 + 1 / 63), (''e'', None, Some 2, 1 / 62)]
   \<and> map (\<lambda>r. (hash r, bm25Rank r, vectorRank r, rrfScore r))
        (take 1 (rrfFusion lexical_abc vector_dec 60))
     = [(''c'', Some 3, Some 3, 2 / 63)]
   \<and> rrfScore (hd (rrfFusion lexical_abc vector_dec 60)) < rrfScore (hd (rrfFusion [] vector_ded 60))"
  by code_simp

section \<open>Hybrid search under a failing branch\<close>

text \<open>
  C7. The strategy of a hybrid searcher defaults to graceful. For valid options (a
  positive \<open>rrfK\<close>, a branch enabled): under the graceful strategy, when both branches are
  enabled and one of them throws, no error is thrown and the result is the fusion of the
  other branch's results alone, cut by the threshold and the limit. That fusion has exactly
  one result for each document the surviving branch found; every result carries the rank
  and the score of a candidate of that branch for its document, and no field of the other
  method; and without a threshold and with a limit that the number of documents does not
  exceed, the search returns all of it. Under the strict strategy the error of an enabled
  branch that throws is thrown on; and when neither branch yields a candidate, the graceful
  strategy returns the empty list and the strict one throws \<open>NO_RESULTS\<close>.
\<close>

theorem hybrid_search_fallback:
  assumes k: "0 < or_default DEFAULT_RRF_K (rrfK options)"
    and en: "or_default True (enableBM25 options) \<or> or_default True (enableVector options)"
  shows
   "fallbackStrategy (HybridSearcher_new fts vecs None) = Graceful
    \<and> (fallbackStrategy hs = Graceful
       \<and> or_default True (enableBM25 options) \<and> or_default True (enableVector options)
       \<and> ftsSearcher hs q (Some (lexicalOptions options)) = Inl err
       \<and> vectorSearcher hs q (Some (vectorOptions options)) = Inr vs
     \<longrightarrow> HybridSearcher_search hs q options =
           Inr (thresholdAndLimit options (rrfFusion [] vs (or_default DEFAULT_RRF_K (rrfK options))))
         \<and> distinct (map hash (rrfFusion [] vs (or_default DEFAULT_RRF_K (rrfK options))))
         \<and> set (map hash (rrfFusion [] vs (or_default DEFAULT_RRF_K (rrfK options))))
             = set (map vec_hash vs)
         \<and> list_all (carries_vector vs) (rrfFusion [] vs (or_default DEFAULT_RRF_K (rrfK options)))
         \<and> list_all vector_only (rrfFusion [] vs (or_default DEFAULT_RRF_K (rrfK options)))
         \<and> (minScore options = None
              \<and> int (length (rrfFusion [] vs (or_default DEFAULT_RRF_K (rrfK options))))
                  \<le> or_default DEFAULT_LIMIT (limit options)
            \<longrightarrow> HybridSearcher_search hs q options =
                  Inr (rrfFusion [] vs (or_default DEFAULT_RRF_K (rrfK options)))))
    \<and> (fallbackStrategy hs = Graceful
       \<and> or_default True (enableBM25 options) \<and> or_default True (enableVector options)
       \<and> ftsSearcher hs q (Some (lexicalOptions options)) = Inr bs
       \<and> vectorSearcher hs q (Some (vectorOptions options)) = Inl err
     \<longrightarrow> HybridSearcher_search hs q options =
           Inr (thresholdAndLimit options (rrfFusion bs [] (or_default DEFAULT_RRF_K (rrfK options))))
         \<and> distinct (map hash (rrfFusion bs [] (or_default DEFAULT_RRF_K (rrfK options))))
         \<and> set (map hash (rrfFusion bs [] (or_default DEFAULT_RRF_K (rrfK options))))
             = set (map fts_hash bs)
         \<and> list_all (carries_lexical bs) (rrfFusion bs [] (or_default DEFAULT_RRF_K (rrfK options)))
         \<and> list_all lexical_only (rrfFusion bs [] (or_default DEFAULT_RRF_K (rrfK options)))
         \<and> (minScore options = None
              \<and> int (length (rrfFusion bs [] (or_default DEFAULT_RRF_K (rrfK options))))
                  \<le> or_default DEFAULT_LIMIT (limit options)
            \<longrightarrow> HybridSearcher_search hs q options =
                  Inr (rrfFusion bs [] (or_default DEFAULT_RRF_K (rrfK options)))))
    \<and> (fallbackStrategy hs = Fail \<and> or_default True (enableBM25 options)
       \<and> ftsSearcher hs q (Some (lexicalOptions options)) = Inl err
     \<longrightarrow> HybridSearcher_search hs q options = Inl err)
    \<and> (fallbackStrategy hs = Fail \<and> or_default True (enableVector options)
       \<and> vectorSearcher hs q (Some (vectorOptions options)) = Inl err
       \<and> (\<not> or_default True (enableBM25 options)
            \<or> ftsSearcher hs q (Some (lexicalOptions options)) = Inr bs)
     \<longrightarrow> HybridSearcher_search hs q options = Inl err)
    \<and> (lexicalBranch hs q options = Inr lb \<and> vectorBranch hs q options = Inr vb
       \<and> or_default [] lb = [] \<and> or_default [] vb = []
     \<longrightarrow> HybridSearcher_search hs q options =
           (case fallbackStrategy hs of
              Graceful \<Rightarrow> Inr []
            | Fail \<Rightarrow> Inl (HybridSearchError
                             ''Both BM25 and vector searches returned no results'' NO_RESULTS)))"
proof (intro conjI impI)
  show "fallbackStrategy (HybridSearcher_new fts vecs None) = Graceful"
    by (simp add: HybridSearcher_new_def or_default_def)
next
  let ?K = "or_default DEFAULT_RRF_K (rrfK options)"
  assume a: "fallbackStrategy hs = Graceful
       \<and> or_default True (enableBM25 options) \<and> or_default True (enableVector options)
       \<and> ftsSearcher hs q (Some (lexicalOptions options)) = Inl err
       \<and> vectorSearcher hs q (Some (vectorOptions options)) = Inr vs"
  show r: "HybridSearcher_search hs q options = Inr (thresholdAndLimit options (rrfFusion [] vs ?K))"
    using a k
    by (cases vs)
       (simp_all add: HybridSearcher_search_def lexicalBranch_def vectorBranch_def
          executeBM25Search_def executeVectorSearch_def or_default_def[of "[]"] Let_def
          rrfFusion_Nil thresholdAndLimit_Nil)
  show "distinct (map hash (rrfFusion [] vs ?K))"
    using rrfFusion_documents[of "[]" vs ?K] by simp
  show "set (map hash (rrfFusion [] vs ?K)) = set (map vec_hash vs)"
    using rrfFusion_documents[of "[]" vs ?K] by simp
  show "list_all (carries_vector vs) (rrfFusion [] vs ?K)" by (rule fusion_carries_vector)
  show "list_all vector_only (rrfFusion [] vs ?K)" by (rule fusion_vector_only)
  assume "minScore options = None
      \<and> int (length (rrfFusion [] vs ?K)) \<le> or_default DEFAULT_LIMIT (limit options)"
  then have "thresholdAndLimit options (rrfFusion [] vs ?K) = rrfFusion [] vs ?K"
    by (simp add: thresholdAndLimit_all)
  with r show "HybridSearcher_search hs q options = Inr (rrfFusion [] vs ?K)" by simp
next
  let ?K = "or_default DEFAULT_RRF_K (rrfK options)"
  assume a: "fallbackStrategy hs = Graceful
       \<and> or_default True (enableBM25 options) \<and> or_default True (enableVector options)
       \<and> ftsSearcher hs q (Some (lexicalOptions options)) = Inr bs
       \<and> vectorSearcher hs q (Some (vectorOptions options)) = Inl err"
  show r: "HybridSearcher_search hs q options = Inr (thresholdAndLimit options (rrfFusion bs [] ?K))"
    using a k
    by (cases bs)
       (simp_all add: HybridSearcher_search_def lexicalBranch_def vectorBranch_def
          executeBM25Search_def executeVectorSearch_def or_default_def[of "[]"] Let_def
          rrfFusion_Nil thresholdAndLimit_Nil)
  show "distinct (map hash (rrfFusion bs [] ?K))"
    using rrfFusion_documents[of bs "[]" ?K] by simp
  show "set (map hash (rrfFusion bs [] ?K)) = set (map fts_hash bs)"
    using rrfFusion_documents[of bs "[]" ?K] by simp
  show "list_all (carries_lexical bs) (rrfFusion bs [] ?K)" by (rule fusion_carries_lexical)
  show "list_all lexical_only (rrfFusion bs [] ?K)" by (rule fusion_lexical_only)
  assume "minScore options = None
      \<and> int (length (rrfFusion bs [] ?K)) \<le> or_default DEFAULT_LIMIT (limit options)"
  then have "thresholdAndLimit options (rrfFusion bs [] ?K) = rrfFusion bs [] ?K"
    by (simp add: thresholdAndLimit_all)
  with r show "HybridSearcher_search hs q options = Inr (rrfFusion bs [] ?K)" by simp
next
  assume "fallbackStrategy hs = Fail \<and> or_default True (enableBM25 options)
       \<and> ftsSearcher hs q (Some (lexicalOptions options)) = Inl err"
  then show "HybridSearcher_search hs q options = Inl err"
    using k by (simp add: HybridSearcher_search_def lexicalBranch_def executeBM25Search_def)
next
  assume "fallbackStrategy hs = Fail \<and> or_default True (enableVector options)
       \<and> vectorSearcher hs q (Some (vectorOptions options)) = Inl err
       \<and> (\<not> or_default True (enableBM25 options)
            \<or> ftsSearcher hs q (Some (lexicalOptions options)) = Inr bs)"
  then show "HybridSearcher_search hs q options = Inl err"
    using k by (auto simp: HybridSearcher_search_def lexicalBranch_def vectorBranch_def
          executeBM25Search_def executeVectorSearch_def)
next
  assume "lexicalBranch hs q options = Inr lb \<and> vectorBranch hs q options = Inr vb
       \<and> or_default [] lb = [] \<and> or_default [] vb = []"
  then show "HybridSearcher_search hs q options =
           (case fallbackStrategy hs of
              Graceful \<Rightarrow> Inr []
            | Fail \<Rightarrow> Inl (HybridSearchError
                             ''Both BM25 and vector searches returned no results'' NO_RESULTS))"
    using k en
    by (cases "fallbackStrategy hs")
       (auto simp: HybridSearcher_search_def or_default_def[of "[]"] Let_def split: option.splits)
qed

theorem hybrid_search_fallback_witness:
  "HybridSearcher_search (lexical_down None) (ascii ''mammals'') default_options
     = Inr (rrfFusion [] vector_dec 60)
   \<and> map (\<lambda>r. (hash r, bm25Score r, bm25Rank r, similarity r, vectorRank r))
        (rrfFusion [] vector_dec 60)
     = [(''d'', None, None, Some (375 / 4), Some 1), (''e'', None, None, Some (175 / 2), Some 2),
        (''c'', None, None, Some 75, Some 3)]
   \<and> list_all (carries_vector vector_dec) (rrfFusion [] vector_dec 60)
   \<and> list_all vector_only (rrfFusion [] vector_dec 60)
   \<and> HybridSearcher_search (vector_down None) (ascii ''mammals'') default_options
     = Inr (rrfFusion lexical_abc [] 60)
   \<and> map (\<lambda>r. (hash r, bm25Score r, bm25Rank r, similarity r, vectorRank r))
        (rrfFusion lexical_abc [] 60)
     = [(''a'', Some 50, Some 1, None, None), (''b'', Some 50, Some 2, None, None),
        (''c'', Some 50, Some 3, None, None)]
   \<and> HybridSearcher_search (lexical_down (Some Fail)) (ascii ''mammals'') default_options
     = Inl (SearchError ''Search query failed: disk I/O error'' QUERY_ERROR)
   \<and> HybridSearcher_search (nothing_found None) (ascii ''mammals'') default_options = Inr []
   \<and> HybridSearcher_search (nothing_found (Some Fail)) (ascii ''mammals'') default_options
     = Inl (HybridSearchError ''Both BM25 and vector searches returned no results'' NO_RESULTS)"
proof -
  have k: "0 < or_default DEFAULT_RRF_K (rrfK default_options)"
    by (simp add: default_options_def or_default_def DEFAULT_RRF_K_def)
  have en: "or_default True (enableBM25 default_options) \<or> or_default True (enableVector default_options)"
    by (simp add: default_options_def or_default_def)
  have h: "map (\<lambda>r. (hash r, bm25Score r, bm25Rank r, similarity r, vectorRank r))
        (rrfFusion [] vector_dec 60)
     = [(''d'', None, None, Some (375 / 4), Some 1), (''e'', None, None, Some (175 / 2), Some 2),
        (''c'', None, None, Some 75, Some 3)]"
    by code_simp
  have h': "map (\<lambda>r. (hash r, bm25Score r, bm25Rank r, similarity r, vectorRank r))
        (rrfFusion lexical_abc [] 60)
     = [(''a'', Some 50, Some 1, None, None), (''b'', Some 50, Some 2, None, None),
        (''c'', Some 50, Some 3, None, None)]"
    by code_simp
  have n: "int (length (rrfFusion [] vector_dec 60)) \<le> 10"
    "int (length (rrfFusion lexical_abc [] 60)) \<le> 10"
    by code_simp+
  have K: "or_default DEFAULT_RRF_K (rrfK default_options) = 60"
    by (simp add: default_options_def or_default_def DEFAULT_RRF_K_def)
  have L: "minScore default_options = None" "or_default DEFAULT_LIMIT (limit default_options) = 10"
    by (simp_all add: default_options_def or_default_def DEFAULT_LIMIT_def)
  have p1: "fallbackStrategy (lexical_down None) = Graceful
       \<and> or_default True (enableBM25 default_options) \<and> or_default True (enableVector default_options)
       \<and> ftsSearcher (lexical_down None) (ascii ''mammals'') (Some (lexicalOptions default_options))
           = Inl (SearchError ''Search query failed: disk I/O error'' QUERY_ERROR)
       \<and> vectorSearcher (lexical_down None) (ascii ''mammals'') (Some (vectorOptions default_options))
           = Inr vector_dec"
    by (simp add: lexical_down_def HybridSearcher_new_def default_options_def or_default_def)
  have p2: "minScore default_options = None
       \<and> int (length (rrfFusion [] vector_dec (or_default DEFAULT_RRF_K (rrfK default_options))))
           \<le> or_default DEFAULT_LIMIT (limit default_options)"
    unfolding K L using n by simp
  from hybrid_search_fallback [OF k en, where hs = "lexical_down None" and q = "ascii ''mammals''"
        and err = "SearchError ''Search query failed: disk I/O error'' QUERY_ERROR" and vs = vector_dec]
    p1 p2
  have "HybridSearcher_search (lexical_down None) (ascii ''mammals'') default_options
     = Inr (rrfFusion [] vector_dec (or_default DEFAULT_RRF_K (rrfK default_options)))
   \<and> list_all (carries_vector vector_dec)
        (rrfFusion [] vector_dec (or_default DEFAULT_RRF_K (rrfK default_options)))
   \<and> list_all vector_only (rrfFusion [] vector_dec (or_default DEFAULT_RRF_K (rrfK default_options)))"
    by blast
  then have g: "HybridSearcher_search (lexical_down None) (ascii ''mammals'') default_options
     = Inr (rrfFusion [] vector_dec 60)
   \<and> list_all (carries_vector vector_dec) (rrfFusion [] vector_dec 60)
   \<and> list_all vector_only (rrfFusion [] vector_dec 60)"
    unfolding K .
  have q1: "fallbackStrategy (vector_down None) = Graceful
       \<and> or_default True (enableBM25 default_options) \<and> or_default True (enableVector default_options)
       \<and> ftsSearcher (vector_down None) (ascii ''mammals'') (Some (lexicalOptions default_options))
           = Inr lexical_abc
       \<and> vectorSearcher (vector_down None) (ascii ''mammals'') (Some (vectorOptions default_options))
           = Inl (VectorSearchError ''Search failed: fetch failed'' QUERY_ERROR)"
    by (simp add: vector_down_def HybridSearcher_new_def default_options_def or_default_def)
  have q2: "minScore default_options = None
       \<and> int (length (rrfFusion lexical_abc [] (or_default DEFAULT_RRF_K (rrfK default_options))))
           \<le> or_default DEFAULT_LIMIT (limit default_options)"
    unfolding K L using n by simp
  from hybrid_search_fallback [OF k en, where hs = "vector_down None" and q = "ascii ''mammals''"
        and err = "VectorSearchError ''Search failed: fetch failed'' QUERY_ERROR" and bs = lexical_abc]
    q1 q2
  have "HybridSearcher_search (vector_down None) (ascii ''mammals'') default_options
     = Inr (rrfFusion lexical_abc [] (or_default DEFAULT_RRF_K (rrfK default_options)))"
    by blast
  then have g': "HybridSearcher_search (vector_down None) (ascii ''mammals'') default_options
     = Inr (rrfFusion lexical_abc [] 60)"
    unfolding K .
  have f: "HybridSearcher_search (lexical_down (Some Fail)) (ascii ''mammals'') default_options
     = Inl (SearchError ''Search query failed: disk I/O error'' QUERY_ERROR)"
    using hybrid_search_fallback [OF k en, where hs = "lexical_down (Some Fail)" and q = "ascii ''mammals''"
        and err = "SearchError ''Search query failed: disk I/O error'' QUERY_ERROR"]
    by (simp add: lexical_down_def HybridSearcher_new_def default_options_def or_default_def)
  have z1: "HybridSearcher_search (nothing_found None) (ascii ''mammals'') default_options = Inr []"
    using hybrid_search_fallback [OF k en, where hs = "nothing_found None" and q = "ascii ''mammals''"
        and lb = "Some []" and vb = "Some []"]
    by (simp add: nothing_found_def HybridSearcher_new_def default_options_def or_default_def lexicalBranch_def
        vectorBranch_def executeBM25Search_def executeVectorSearch_def)
  have z2: "HybridSearcher_search (nothing_found (Some Fail)) (ascii ''mammals'') default_options
     = Inl (HybridSearchError ''Both BM25 and vector searches returned no results'' NO_RESULTS)"
    using hybrid_search_fallback [OF k en, where hs = "nothing_found (Some Fail)" and q = "ascii ''mammals''"
        and lb = "Some []" and vb = "Some []"]
    by (simp add: nothing_found_def HybridSearcher_new_def default_options_def or_default_def lexicalBranch_def
        vectorBranch_def executeBM25Search_def executeVectorSearch_def)
  show ?thesis using g g' h h' f z1 z2 by blast
qed

end
